theory Spec2Isabelle
  imports Main "HOL-Library.Multiset"
begin

section \<open>Python values used by \<open>data.py\<close>\<close>

text \<open>
  A Python \<open>str\<close> is a sequence of Unicode code points, so it is modelled as a list of
  natural numbers; \<open>ascii\<close> reads an ASCII literal of the source as such a sequence.
\<close>

type_synonym pystr = "nat list"

definition ascii :: "string \<Rightarrow> pystr" where
  "ascii s = map of_char s"

text \<open>
  \<open>str.strip()\<close> without argument removes leading and trailing white space; the code
  points below are the ones for which \<open>str.isspace\<close> holds.
\<close>

definition py_isspace :: "nat \<Rightarrow> bool" where
  "py_isspace c =
     (c \<in> set [9, 10, 11, 12, 13, 28, 29, 30, 31, 32, 133, 160, 5760, 8192, 8193, 8194,
                 8195, 8196, 8197, 8198, 8199, 8200, 8201, 8202, 8232, 8233, 8239, 8287,
                 12288])"

definition py_strip :: "pystr \<Rightarrow> pystr" where
  "py_strip s = rev (dropWhile py_isspace (rev (dropWhile py_isspace s)))"

text \<open>
  \<open>str.upper()\<close> maps every code point to its upper-case sequence. On ASCII this is the
  shift of \<open>a\<close>..\<open>z\<close>; beyond ASCII it is a table of the Python runtime (one code point
  may become several, as U+00DF does), which the model takes as the parameter \<open>uc\<close>.
\<close>

definition py_upper_char :: "(nat \<Rightarrow> pystr) \<Rightarrow> nat \<Rightarrow> pystr" where
  "py_upper_char uc c =
     (if 97 \<le> c \<and> c \<le> 122 then [c - 32] else if c < 128 then [c] else uc c)"

definition py_upper :: "(nat \<Rightarrow> pystr) \<Rightarrow> pystr \<Rightarrow> pystr" where
  "py_upper uc s = concat (map (py_upper_char uc) s)"

text \<open>\<open>s.startswith('@')\<close> and the slice \<open>s[1:]\<close>.\<close>

definition startswith_at :: "pystr \<Rightarrow> bool" where
  "startswith_at s = (case s of [] \<Rightarrow> False | c # _ \<Rightarrow> c = 64)"

definition slice_from_1 :: "'a list \<Rightarrow> 'a list" where
  "slice_from_1 s = drop 1 s"

text \<open>
  The slice \<open>xs[:k]\<close> for an integer \<open>k\<close>: the first \<open>k\<close> items, and for a negative
  \<open>k\<close> all but the last \<open>-k\<close>.
\<close>

definition slice_to :: "'a list \<Rightarrow> int \<Rightarrow> 'a list" where
  "slice_to xs k =
     (if 0 \<le> k then take (nat k) xs else take (length xs - nat (- k)) xs)"

text \<open>\<open>str(n)\<close> of an integer, as an f-string renders it.\<close>

fun str_nat :: "nat \<Rightarrow> pystr" where
  "str_nat n = (if n < 10 then [48 + n] else str_nat (n div 10) @ [48 + n mod 10])"

declare str_nat.simps [simp del]

definition str_int :: "int \<Rightarrow> pystr" where
  "str_int i = (if i < 0 then 45 # str_nat (nat (- i)) else str_nat (nat i))"

section \<open>Normalizer: \<open>clean_company_name\<close>\<close>

text \<open>
  \<open>if not company: return ""\<close> covers \<open>None\<close> and the empty string; then the value is
  stripped, loses one leading \<open>@\<close>, and is upper-cased.
\<close>

definition clean_company_name :: "(nat \<Rightarrow> pystr) \<Rightarrow> pystr option \<Rightarrow> pystr" where
  "clean_company_name uc company =
     (case company of
        None \<Rightarrow> []
      | Some c \<Rightarrow>
          if c = [] then []
          else
            let company1 = py_strip c;
                company2 = (if startswith_at company1 then slice_from_1 company1 else company1)
            in py_upper uc company2)"

text \<open>
  The same operation following the words of the specification: trim white space; if the
  first character is \<open>@\<close>, drop it; upper-case the remainder; empty or absent input yields
  the empty string.
\<close>

fun drop_leading_at :: "pystr \<Rightarrow> pystr" where
  "drop_leading_at [] = []"
| "drop_leading_at (c # cs) = (if c = 64 then cs else c # cs)"

fun cleanCompany_spec :: "(nat \<Rightarrow> pystr) \<Rightarrow> pystr option \<Rightarrow> pystr" where
  "cleanCompany_spec uc None = []"
| "cleanCompany_spec uc (Some raw) = py_upper uc (drop_leading_at (py_strip raw))"

section \<open>Data model\<close>

text \<open>
  The decoded JSON bodies are modelled as typed records holding the fields the program
  reads. \<open>None\<close> stands for JSON \<open>null\<close>.
\<close>

record stub =
  stub_login :: pystr

record search_result =
  items :: "stub list"

record user_details =
  login :: pystr
  name :: "pystr option"
  company :: "pystr option"
  location :: "pystr option"
  email :: "pystr option"
  hireable :: "bool option"
  bio :: "pystr option"
  public_repos :: int
  followers :: int
  following :: int
  created_at :: pystr

record raw_repo =
  full_name :: pystr
  repo_created_at :: pystr
  stargazers_count :: int
  watchers_count :: int
  language :: "pystr option"
  has_projects :: bool
  has_wiki :: bool
  license :: "(pystr \<rightharpoonup> pystr) option"

text \<open>Rows of the two output tables, with the columns in the order the code selects.\<close>

record user_row =
  col_login :: pystr
  col_name :: "pystr option"
  col_company :: pystr
  col_location :: "pystr option"
  col_email :: "pystr option"
  col_hireable :: "bool option"
  col_bio :: "pystr option"
  col_public_repos :: int
  col_followers :: int
  col_following :: int
  col_created_at :: pystr

record repo_row =
  owner_login :: pystr
  row_full_name :: pystr
  row_created_at :: pystr
  row_stargazers_count :: int
  row_watchers_count :: int
  row_language :: "pystr option"
  row_has_projects :: bool
  row_has_wiki :: bool
  license_name :: "pystr option"

record dataset =
  users_csv :: "user_row list"
  repositories_csv :: "repo_row list"

section \<open>The remote service and the effects of a call\<close>

text \<open>
  An exception raised inside the program is a value of \<open>exn\<close>; a computation that may
  raise returns \<open>exn + 'a\<close>. \<open>requests.get\<close> either raises (no response) or returns a
  response with a status code and a body.
\<close>

datatype exn = RequestException pystr | AttributeError pystr | KeyError pystr

record 'a response =
  status_code :: int
  json :: 'a

type_synonym 'a fetch = "exn + 'a response"

text \<open>
  The three endpoints the program calls. The remote service is a function of the
  request; the arguments are the ones the program varies (query, page and page size
  for the search; the login for the detail; login, page size and page for the
  repository listing). The detail body is \<open>None\<close> when it is falsy in Python.
\<close>

record remote =
  search_users :: "pystr \<Rightarrow> int \<Rightarrow> int \<Rightarrow> search_result fetch"
  users_endpoint :: "pystr \<Rightarrow> user_details option fetch"
  repos_endpoint :: "pystr \<Rightarrow> int \<Rightarrow> int \<Rightarrow> raw_repo list fetch"

datatype request =
    Search_users pystr int int
  | User_details pystr
  | User_repos pystr int int

text \<open>
  What the program does to the outside world: the requests it has sent, in order, and
  the lines it has printed.
\<close>

record world =
  calls :: "request list"
  stdout :: "pystr list"

definition print_line :: "pystr \<Rightarrow> world \<Rightarrow> world" where
  "print_line s w = w\<lparr>stdout := stdout w @ [s]\<rparr>"

text \<open>
  \<open>api_call\<close> sends one request; \<open>answer\<close> is what \<open>requests.get\<close> returns or raises
  for it. The decorators \<open>sleep_and_retry\<close> and \<open>limits\<close> only delay the call.
\<close>

definition api_call :: "'a fetch \<Rightarrow> request \<Rightarrow> world \<Rightarrow> 'a fetch \<times> world" where
  "api_call answer req w = (answer, w\<lparr>calls := calls w @ [req]\<rparr>)"

section \<open>GitHubScraper\<close>

definition search_query :: "int \<Rightarrow> pystr" where
  "search_query min_followers = ascii ''location:Berlin followers:>='' @ str_int min_followers"

text \<open>
  The loop of \<open>get_berlin_users\<close> is \<open>while True\<close>: it ends on a failure status or an
  empty page, and need not end otherwise.
\<close>

partial_function (option) get_berlin_users_loop ::
  "remote \<Rightarrow> int \<Rightarrow> stub list \<Rightarrow> int \<Rightarrow> world \<Rightarrow> ((exn + stub list) \<times> world) option"
where
  "get_berlin_users_loop rem min_followers users page w =
     (case api_call (search_users rem (search_query min_followers) page 100)
             (Search_users (search_query min_followers) page 100) w of
        (Inl e, w1) \<Rightarrow> Some (Inl e, w1)
      | (Inr response, w1) \<Rightarrow>
          if status_code response \<noteq> 200
          then Some (Inr users,
                 print_line (ascii ''Error fetching users: '' @ str_int (status_code response)) w1)
          else if items (json response) = [] then Some (Inr users, w1)
          else get_berlin_users_loop rem min_followers (users @ items (json response))
                 (page + 1) w1)"

definition get_berlin_users ::
  "remote \<Rightarrow> int \<Rightarrow> world \<Rightarrow> ((exn + stub list) \<times> world) option" where
  "get_berlin_users rem min_followers w = get_berlin_users_loop rem min_followers [] 1 w"



definition get_user_details ::
  "remote \<Rightarrow> pystr \<Rightarrow> world \<Rightarrow> (exn + user_details option) \<times> world" where
  "get_user_details rem username w =
     (case api_call (users_endpoint rem username) (User_details username) w of
        (Inl e, w1) \<Rightarrow> (Inl e, w1)
      | (Inr response, w1) \<Rightarrow>
          if status_code response \<noteq> 200
          then (Inr None,
                 print_line (ascii ''Error fetching user details for '' @ username @ ascii '': ''
                             @ str_int (status_code response)) w1)
          else (Inr (json response), w1))"

text \<open>
  The loop of \<open>get_user_repos\<close>, from the state \<open>repos\<close>, \<open>page\<close>; it returns the list
  accumulated when the loop is left, or the exception of a call.
\<close>

function get_user_repos_loop ::
  "remote \<Rightarrow> pystr \<Rightarrow> int \<Rightarrow> raw_repo list \<Rightarrow> int \<Rightarrow> world \<Rightarrow> (exn + raw_repo list) \<times> world"
where
  "get_user_repos_loop rem username max_repos repos page w =
     (if int (length repos) < max_repos then
        (case api_call (repos_endpoint rem username 100 page) (User_repos username 100 page) w of
           (Inl e, w1) \<Rightarrow> (Inl e, w1)
         | (Inr response, w1) \<Rightarrow>
             if status_code response \<noteq> 200
             then (Inr repos,
                    print_line (ascii ''Error fetching repos for '' @ username @ ascii '': ''
                                @ str_int (status_code response)) w1)
             else if json response = [] then (Inr repos, w1)
             else if length (json response) < 100 then (Inr (repos @ json response), w1)
             else get_user_repos_loop rem username max_repos (repos @ json response)
                    (page + 1) w1)
      else (Inr repos, w))"
  by pat_completeness auto
termination
  by (relation "measure (\<lambda>(rem, username, max_repos, repos, page, w).
                  nat (max_repos - int (length repos)))") auto

declare get_user_repos_loop.simps [simp del]

definition get_user_repos ::
  "remote \<Rightarrow> pystr \<Rightarrow> int \<Rightarrow> world \<Rightarrow> (exn + raw_repo list) \<times> world" where
  "get_user_repos rem username max_repos w =
     (case get_user_repos_loop rem username max_repos [] 1 w of
        (Inl e, w1) \<Rightarrow> (Inl e, w1)
      | (Inr repos, w1) \<Rightarrow> (Inr (slice_to repos max_repos), w1))"

text \<open>
  A data frame is the list of its rows; \<open>pd.DataFrame()\<close> is the empty list and
  \<open>df.empty\<close> holds when there is no row. \<open>create_repos_dataframe\<close> adds the column
  \<open>login\<close> with the user name, extracts the license key and selects the columns.
\<close>

definition extract_license :: "(pystr \<rightharpoonup> pystr) option \<Rightarrow> pystr option" where
  "extract_license x = (case x of None \<Rightarrow> None | Some d \<Rightarrow> d (ascii ''key''))"

definition repo_to_row :: "pystr \<Rightarrow> raw_repo \<Rightarrow> repo_row" where
  "repo_to_row username r =
     \<lparr>owner_login = username, row_full_name = full_name r,
      row_created_at = repo_created_at r, row_stargazers_count = stargazers_count r,
      row_watchers_count = watchers_count r, row_language = language r,
      row_has_projects = has_projects r, row_has_wiki = has_wiki r,
      license_name = extract_license (license r)\<rparr>"

definition create_repos_dataframe :: "raw_repo list \<Rightarrow> pystr \<Rightarrow> repo_row list" where
  "create_repos_dataframe repos_data username =
     (if repos_data = [] then [] else map (repo_to_row username) repos_data)"

text \<open>
  \<open>process_user\<close> returns the pair \<open>(None, None)\<close> when the details are missing, and
  the details with a data frame otherwise.
\<close>

definition process_user ::
  "remote \<Rightarrow> stub \<Rightarrow> world \<Rightarrow> (exn + user_details option \<times> repo_row list option) \<times> world"
where
  "process_user rem user w =
     (let username = stub_login user in
      case get_user_details rem username w of
        (Inl e, w1) \<Rightarrow> (Inl e, w1)
      | (Inr None, w1) \<Rightarrow> (Inr (None, None), w1)
      | (Inr (Some d), w1) \<Rightarrow>
          (case get_user_repos rem username 500 w1 of
             (Inl e, w2) \<Rightarrow> (Inl e, w2)
           | (Inr repos, w2) \<Rightarrow>
               (Inr (Some d,
                  Some (if repos \<noteq> [] then create_repos_dataframe repos username else [])),
                w2)))"

text \<open>
  \<open>pd.DataFrame(users_data)\<close> takes its columns from the records it is given: a frame
  built from no record has no column, and selecting \<open>'company'\<close> in it raises
  \<open>KeyError\<close>.
\<close>

definition frame_columns :: "user_details list \<Rightarrow> pystr list" where
  "frame_columns users_data =
     (if users_data = [] then []
      else map ascii [''login'', ''name'', ''company'', ''location'', ''email'', ''hireable'',
             ''bio'', ''public_repos'', ''followers'', ''following'', ''created_at''])"

text \<open>
  The values of the column \<open>company\<close> in the frame. A company that is a string stays
  that string. What a missing company (\<open>None\<close>) becomes is decided by the installed
  pandas, which the source does not pin, from the values of the column: it is kept
  as \<open>None\<close>, or it is read as the float \<open>NaN\<close> (as pandas does once it infers a
  string column from the strings beside it). The model takes this decision as the
  parameter \<open>as_nan\<close>.
\<close>

datatype cell = Text pystr | Null | NaN

definition company_column :: "(pystr option list \<Rightarrow> bool) \<Rightarrow> pystr option list \<Rightarrow> cell list" where
  "company_column as_nan vs =
     map (\<lambda>v. case v of Some s \<Rightarrow> Text s | None \<Rightarrow> (if as_nan vs then NaN else Null)) vs"

text \<open>
  \<open>clean_company_name\<close> called by \<open>apply\<close> on one value of the column: \<open>NaN\<close> is
  truthy, so it passes \<open>if not company\<close> and \<open>company.strip()\<close> raises
  \<open>AttributeError\<close>.
\<close>

definition clean_company_cell :: "(nat \<Rightarrow> pystr) \<Rightarrow> cell \<Rightarrow> exn + pystr" where
  "clean_company_cell uc c =
     (case c of
        Text s \<Rightarrow> Inr (clean_company_name uc (Some s))
      | Null \<Rightarrow> Inr (clean_company_name uc None)
      | NaN \<Rightarrow> Inl (AttributeError
                 ([39] @ ascii ''float'' @ [39] @ ascii '' object has no attribute ''
                  @ [39] @ ascii ''strip'' @ [39])))"

text \<open>\<open>users_df['company'].apply(self.clean_company_name)\<close>, value by value, in order.\<close>

fun apply_clean_company_name :: "(nat \<Rightarrow> pystr) \<Rightarrow> cell list \<Rightarrow> exn + pystr list" where
  "apply_clean_company_name uc [] = Inr []"
| "apply_clean_company_name uc (c # cs) =
     (case clean_company_cell uc c of
        Inl e \<Rightarrow> Inl e
      | Inr v \<Rightarrow>
          (case apply_clean_company_name uc cs of
             Inl e \<Rightarrow> Inl e
           | Inr vs \<Rightarrow> Inr (v # vs)))"

text \<open>The row of a user with the cleaned company, in the order of \<open>columns\<close>.\<close>

definition select_columns :: "user_details \<Rightarrow> pystr \<Rightarrow> user_row" where
  "select_columns d cleaned =
     \<lparr>col_login = login d, col_name = name d,
      col_company = cleaned, col_location = location d,
      col_email = email d, col_hireable = hireable d, col_bio = bio d,
      col_public_repos = public_repos d, col_followers = followers d,
      col_following = following d, col_created_at = created_at d\<rparr>"

definition create_users_dataframe ::
  "(pystr option list \<Rightarrow> bool) \<Rightarrow> (nat \<Rightarrow> pystr) \<Rightarrow> user_details list \<Rightarrow> exn + user_row list"
where
  "create_users_dataframe as_nan uc users_data =
     (if ascii ''company'' \<in> set (frame_columns users_data)
      then
        (case apply_clean_company_name uc (company_column as_nan (map company users_data)) of
           Inl e \<Rightarrow> Inl e
         | Inr cleaned \<Rightarrow> Inr (map (\<lambda>(d, c). select_columns d c) (zip users_data cleaned)))
      else Inl (KeyError (ascii ''company'')))"

section \<open>main\<close>

text \<open>\<open>str(e)\<close> of an exception: its message, and for \<open>KeyError\<close> the quoted key.\<close>

fun str_exn :: "exn \<Rightarrow> pystr" where
  "str_exn (RequestException m) = m"
| "str_exn (AttributeError m) = m"
| "str_exn (KeyError k) = [39] @ k @ [39]"

text \<open>
  The loop over \<open>as_completed\<close>: the futures arrive in the order of their completion,
  which is the list the function recurses on, and the main thread handles one result
  at a time. The effects of each worker are recorded when its result is collected; as
  the remote service is a function of the request, the results do not depend on how
  the workers interleave. Reading \<open>repos_df.empty\<close> on \<open>None\<close> raises
  \<open>AttributeError\<close>, caught by the handler inside the loop like every exception of
  \<open>future.result()\<close>.
\<close>

fun collect ::
  "remote \<Rightarrow> nat \<Rightarrow> stub list \<Rightarrow> user_details list \<Rightarrow> repo_row list list \<Rightarrow> nat \<Rightarrow> world
   \<Rightarrow> (user_details list \<times> repo_row list list) \<times> world"
where
  "collect rem n_users [] users_data all_repos_data completed w =
     ((users_data, all_repos_data), w)"
| "collect rem n_users (user # rest) users_data all_repos_data completed w =
     (case process_user rem user w of
        (result, w1) \<Rightarrow>
          let completed1 = completed + 1;
              w2 = print_line (ascii ''Processing '' @ str_nat completed1 @ ascii ''/''
                     @ str_nat n_users @ ascii '': '' @ stub_login user) w1;
              failed = (\<lambda>e. print_line (ascii ''Error processing '' @ stub_login user
                             @ ascii '': '' @ str_exn e) w2)
          in
            (case result of
               Inl e \<Rightarrow> collect rem n_users rest users_data all_repos_data completed1 (failed e)
             | Inr (user_details, repos_df) \<Rightarrow>
                 let users_data1 =
                       (case user_details of None \<Rightarrow> users_data | Some d \<Rightarrow> users_data @ [d])
                 in
                   (case repos_df of
                      None \<Rightarrow>
                        collect rem n_users rest users_data1 all_repos_data completed1
                          (failed (AttributeError
                             (ascii [CHR 0x27] @ ascii ''NoneType'' @ ascii [CHR 0x27]
                              @ ascii '' object has no attribute '' @ ascii [CHR 0x27]
                              @ ascii ''empty'' @ ascii [CHR 0x27])))
                    | Some df \<Rightarrow>
                        collect rem n_users rest users_data1
                          (if df \<noteq> [] then all_repos_data @ [df] else all_repos_data)
                          completed1 w2)))"

text \<open>
  \<open>main\<close>: the result is \<open>Inr\<close> of the two tables written to \<open>users.csv\<close> and
  \<open>repositories.csv\<close>, or \<open>Inl\<close> of the exception the outer handler caught, in which
  case no file is written. \<open>completion\<close> gives the order in which the futures of the
  submitted users complete, \<open>as_nan\<close> is the decision of pandas described above.
  The result is \<open>None\<close> when the search loop never ends.
\<close>

definition main ::
  "(pystr option list \<Rightarrow> bool) \<Rightarrow> remote \<Rightarrow> (nat \<Rightarrow> pystr) \<Rightarrow> (stub list \<Rightarrow> stub list)
   \<Rightarrow> world \<Rightarrow> ((exn + dataset) \<times> world) option"
where
  "main as_nan rem uc completion w =
     (case get_berlin_users rem 200 (print_line (ascii ''Fetching Berlin users...'') w) of
        None \<Rightarrow> None
      | Some (Inl e, w1) \<Rightarrow> Some (Inl e, print_line (ascii ''Error: '' @ str_exn e) w1)
      | Some (Inr berlin_users, w1) \<Rightarrow>
          (case collect rem (length berlin_users) (completion berlin_users) [] [] 0
                  (print_line (ascii ''Found '' @ str_nat (length berlin_users)
                     @ ascii '' users in Berlin with >200 followers'') w1) of
             ((users_data, all_repos_data), w2) \<Rightarrow>
               (case create_users_dataframe as_nan uc users_data of
                  Inl e \<Rightarrow>
                    Some (Inl e,
                      print_line (ascii ''Error: '' @ str_exn e)
                        (print_line (ascii ''Creating final datasets...'') w2))
                | Inr users_df \<Rightarrow>
                    Some (Inr \<lparr>users_csv = users_df,
                                repositories_csv =
                                  (if all_repos_data \<noteq> [] then concat all_repos_data else [])\<rparr>,
                      print_line (ascii ''Done!'')
                        (print_line (ascii ''Saving results...'')
                           (print_line (ascii ''Creating final datasets...'') w2))))))"

section \<open>Vocabulary of the statements\<close>

text \<open>
  Abbreviations used to state the properties: a successful answer, the requests added
  to the log, and the results of the source functions started in the empty world (the
  results do not depend on the world, as shown below).
\<close>

text \<open>A response with status 200 and the given body.\<close>

definition ok :: "'a \<Rightarrow> 'a fetch" where
  "ok body = Inr \<lparr>status_code = 200, json = body\<rparr>"

text \<open>The world after the requests \<open>rs\<close> have been sent.\<close>

definition sent :: "request list \<Rightarrow> world \<Rightarrow> world" where
  "sent rs w = w\<lparr>calls := calls w @ rs\<rparr>"

definition world0 :: world where
  "world0 = \<lparr>calls = [], stdout = []\<rparr>"

text \<open>What \<open>get_user_details\<close> returns or raises for a login.\<close>

definition detail_fetch :: "remote \<Rightarrow> pystr \<Rightarrow> exn + user_details option" where
  "detail_fetch rem username = fst (get_user_details rem username world0)"

text \<open>The detail fetch gave no profile: it raised, had a status other than 200, or a falsy body.\<close>

definition detail_failed :: "remote \<Rightarrow> pystr \<Rightarrow> bool" where
  "detail_failed rem username =
     (case detail_fetch rem username of Inr (Some d) \<Rightarrow> False | _ \<Rightarrow> True)"

text \<open>What \<open>get_user_repos\<close> returns or raises for a login, with the cap 500 of \<open>process_user\<close>.\<close>

definition repos_fetch :: "remote \<Rightarrow> pystr \<Rightarrow> exn + raw_repo list" where
  "repos_fetch rem username = fst (get_user_repos rem username 500 world0)"

text \<open>What \<open>process_user\<close> returns or raises for a stub.\<close>

definition processed :: "remote \<Rightarrow> stub \<Rightarrow> exn + user_details option \<times> repo_row list option" where
  "processed rem user = fst (process_user rem user world0)"

text \<open>The worker of a stub returned a profile with a data frame.\<close>

definition succeeded :: "remote \<Rightarrow> stub \<Rightarrow> bool" where
  "succeeded rem user =
     (case processed rem user of Inr (Some d, Some df) \<Rightarrow> True | _ \<Rightarrow> False)"

text \<open>The profiles the loop of \<open>main\<close> appends for one stub.\<close>

definition profiles :: "remote \<Rightarrow> stub \<Rightarrow> user_details list" where
  "profiles rem user = (case processed rem user of Inr (Some d, _) \<Rightarrow> [d] | _ \<Rightarrow> [])"

text \<open>The data frames the loop of \<open>main\<close> appends for one stub.\<close>

definition frames :: "remote \<Rightarrow> stub \<Rightarrow> repo_row list list" where
  "frames rem user =
     (case processed rem user of
        Inr (_, Some df) \<Rightarrow> (if df \<noteq> [] then [df] else [])
      | _ \<Rightarrow> [])"

text \<open>The row of a user whose company is a string or \<open>None\<close>.\<close>

definition user_to_row :: "(nat \<Rightarrow> pystr) \<Rightarrow> user_details \<Rightarrow> user_row" where
  "user_to_row uc d = select_columns d (clean_company_name uc (company d))"

text \<open>The column \<open>company\<close> of these users holds a missing value that pandas reads as \<open>NaN\<close>.\<close>

definition reads_nan :: "(pystr option list \<Rightarrow> bool) \<Rightarrow> user_details list \<Rightarrow> bool" where
  "reads_nan as_nan users_data =
     (as_nan (map company users_data) \<and> None \<in> set (map company users_data))"

text \<open>The exception of \<open>company.strip()\<close> on \<open>NaN\<close>.\<close>

definition float_has_no_strip :: exn where
  "float_has_no_strip =
     AttributeError ([39] @ ascii ''float'' @ [39] @ ascii '' object has no attribute ''
                     @ [39] @ ascii ''strip'' @ [39])"

section \<open>Sample remote services\<close>

text \<open>
  Concrete remote services on which the statements are evaluated: \<open>fixture\<close> serves
  the given search pages and repository pages by page number (and an empty page after
  them), and answers the detail request with status 404 for the logins listed as
  missing and with a sample profile of the requested login otherwise.
\<close>

definition status :: "int \<Rightarrow> 'a \<Rightarrow> 'a fetch" where
  "status code body = Inr \<lparr>status_code = code, json = body\<rparr>"

definition scripted :: "'a fetch \<Rightarrow> 'a fetch list \<Rightarrow> int \<Rightarrow> 'a fetch" where
  "scripted final script page =
     (if 1 \<le> page \<and> page \<le> int (length script) then script ! nat (page - 1) else final)"

definition sample_repo :: raw_repo where
  "sample_repo =
     \<lparr>full_name = ascii ''octocat/hello'', repo_created_at = ascii ''2020-01-01T00:00:00Z'',
      stargazers_count = 3, watchers_count = 3, language = None, has_projects = True,
      has_wiki = False, license = None\<rparr>"

definition sample_user :: "pystr \<Rightarrow> user_details" where
  "sample_user u =
     \<lparr>login = u, name = None, company = Some (ascii ''@OpenAI ''),
      location = Some (ascii ''Berlin''), email = None, hireable = None, bio = None,
      public_repos = 1, followers = 250, following = 0,
      created_at = ascii ''2015-01-01T00:00:00Z''\<rparr>"

definition fixture :: "search_result fetch list \<Rightarrow> pystr list \<Rightarrow> raw_repo list fetch list \<Rightarrow> remote" where
  "fixture searches missing listings =
     \<lparr>search_users = (\<lambda>q page per_page. scripted (ok \<lparr>items = []\<rparr>) searches page),
      users_endpoint = (\<lambda>u. if u \<in> set missing then status 404 None else ok (Some (sample_user u))),
      repos_endpoint = (\<lambda>u per_page page. scripted (ok []) listings page)\<rparr>"

definition alice :: stub where
  "alice = \<lparr>stub_login = ascii ''alice''\<rparr>"

definition bob :: stub where
  "bob = \<lparr>stub_login = ascii ''bob''\<rparr>"

definition uc0 :: "nat \<Rightarrow> pystr" where
  "uc0 c = [c]"

text \<open>The decision of a pandas that reads a missing value as \<open>NaN\<close> in a column that holds a string.\<close>

definition infers_strings :: "pystr option list \<Rightarrow> bool" where
  "infers_strings vs = (filter (\<lambda>v. v \<noteq> None) vs \<noteq> [])"



text \<open>One full page, then a page that answers with status 500.\<close>

definition failing_fixture :: remote where
  "failing_fixture =
     fixture (map (\<lambda>p. ok \<lparr>items = p\<rparr>) [[alice]] @ [status 500 \<lparr>items = []\<rparr>]) []
       (map ok [replicate 100 sample_repo] @ [status 500 []])"

text \<open>One full page, then a page whose request raises.\<close>

definition raising_fixture :: remote where
  "raising_fixture =
     fixture (map (\<lambda>p. ok \<lparr>items = p\<rparr>) [[alice]] @ [Inl (RequestException (ascii ''timed out''))]) []
       (map ok [replicate 100 sample_repo] @ [Inl (RequestException (ascii ''timed out''))])"

text \<open>One full page, then the empty page that ends the listing.\<close>

definition ending_fixture :: remote where
  "ending_fixture =
     fixture (map (\<lambda>p. ok \<lparr>items = p\<rparr>) [[alice]] @ []) []
       (map ok [replicate 100 sample_repo] @ [])"



definition dataset_fixture :: remote where
  "dataset_fixture =
     fixture [ok \<lparr>items = [alice, bob]\<rparr>] [ascii ''bob''] [ok [sample_repo]]"

text \<open>The two tables \<open>main\<close> writes for \<open>dataset_fixture\<close>.\<close>

definition dataset_saved :: dataset where
  "dataset_saved =
     \<lparr>users_csv = [user_to_row uc0 (sample_user (ascii ''alice''))],
      repositories_csv = [repo_to_row (ascii ''alice'') sample_repo]\<rparr>"

section \<open>Properties of the normalizer\<close>

lemma py_strip_Nil: "py_strip [] = []"
  by (simp add: py_strip_def)

lemma py_upper_Nil: "py_upper uc [] = []"
  by (simp add: py_upper_def)

lemma drop_leading_at_eq:
  "drop_leading_at s = (if startswith_at s then slice_from_1 s else s)"
  by (cases s) (simp_all add: startswith_at_def slice_from_1_def)

lemma clean_company_name_refines:
  "clean_company_name uc raw = cleanCompany_spec uc raw"
proof (cases raw)
  case None
  then show ?thesis by (simp add: clean_company_name_def)
next
  case (Some c)
  then show ?thesis
    by (cases "c = []")
      (simp_all add: clean_company_name_def drop_leading_at_eq py_strip_Nil py_upper_Nil
        startswith_at_def)
qed

lemma clean_company_name_OpenAI:
  "clean_company_name uc (Some (ascii ''@OpenAI '')) = ascii ''OPENAI''"
  by (simp add: clean_company_name_def ascii_def py_strip_def py_isspace_def
      startswith_at_def slice_from_1_def py_upper_def py_upper_char_def)

lemma clean_company_name_Acme:
  "clean_company_name uc (Some (ascii ''Acme Corp'')) = ascii ''ACME CORP''"
  by (simp add: clean_company_name_def ascii_def py_strip_def py_isspace_def
      startswith_at_def slice_from_1_def py_upper_def py_upper_char_def)

section \<open>Pagination of the repository listing\<close>

lemma sent_Nil: "sent [] w = w" by (simp add: sent_def)

lemma sent_sent: "sent rs (sent qs w) = sent (qs @ rs) w" by (simp add: sent_def)

lemma loop_done:
  "\<not> int (length repos) < K \<Longrightarrow> get_user_repos_loop rem u K repos p w = (Inr repos, w)"
  by (simp add: get_user_repos_loop.simps)

lemma loop_raise:
  "int (length repos) < K \<Longrightarrow> repos_endpoint rem u 100 p = Inl e \<Longrightarrow>
   get_user_repos_loop rem u K repos p w = (Inl e, sent [User_repos u 100 p] w)"
  by (subst get_user_repos_loop.simps) (simp add: api_call_def sent_def)

lemma loop_status:
  "int (length repos) < K \<Longrightarrow> repos_endpoint rem u 100 p = Inr r \<Longrightarrow> status_code r \<noteq> 200 \<Longrightarrow>
   get_user_repos_loop rem u K repos p w =
     (Inr repos, print_line (ascii ''Error fetching repos for '' @ u @ ascii '': ''
                                @ str_int (status_code r)) (sent [User_repos u 100 p] w))"
  by (subst get_user_repos_loop.simps) (simp add: api_call_def sent_def)

lemma loop_empty:
  "int (length repos) < K \<Longrightarrow> repos_endpoint rem u 100 p = ok [] \<Longrightarrow>
   get_user_repos_loop rem u K repos p w = (Inr repos, sent [User_repos u 100 p] w)"
  by (subst get_user_repos_loop.simps) (simp add: api_call_def sent_def ok_def)

lemma loop_short:
  "int (length repos) < K \<Longrightarrow> repos_endpoint rem u 100 p = ok data \<Longrightarrow> data \<noteq> [] \<Longrightarrow>
   length data < 100 \<Longrightarrow>
   get_user_repos_loop rem u K repos p w = (Inr (repos @ data), sent [User_repos u 100 p] w)"
  by (subst get_user_repos_loop.simps) (simp add: api_call_def sent_def ok_def)

lemma loop_full:
  "int (length repos) < K \<Longrightarrow> repos_endpoint rem u 100 p = ok data \<Longrightarrow> 100 \<le> length data \<Longrightarrow>
   get_user_repos_loop rem u K repos p w =
     get_user_repos_loop rem u K (repos @ data) (p + 1) (sent [User_repos u 100 p] w)"
  by (subst get_user_repos_loop.simps) (auto simp add: api_call_def sent_def ok_def)

lemma loop_pages:
  "(\<And>i. i < m \<Longrightarrow> repos_endpoint rem u 100 (p + int i) = ok (pg i)) \<Longrightarrow>
   (\<And>i. i < m \<Longrightarrow> 100 \<le> length (pg i)) \<Longrightarrow>
   (\<And>i. i < m \<Longrightarrow> int (length (repos @ concat (map pg [0..<i]))) < K) \<Longrightarrow>
   get_user_repos_loop rem u K repos p w =
     get_user_repos_loop rem u K (repos @ concat (map pg [0..<m])) (p + int m)
       (sent (map (\<lambda>i. User_repos u 100 (p + int i)) [0..<m]) w)"
proof (induction m)
  case 0
  show ?case by (simp add: sent_Nil)
next
  case (Suc m)
  have "get_user_repos_loop rem u K repos p w =
     get_user_repos_loop rem u K (repos @ concat (map pg [0..<m])) (p + int m)
       (sent (map (\<lambda>i. User_repos u 100 (p + int i)) [0..<m]) w)"
    using Suc.prems by (intro Suc.IH) simp_all
  also have "\<dots> = get_user_repos_loop rem u K ((repos @ concat (map pg [0..<m])) @ pg m)
       (p + int m + 1) (sent [User_repos u 100 (p + int m)]
          (sent (map (\<lambda>i. User_repos u 100 (p + int i)) [0..<m]) w))"
    using Suc.prems(1) [of m] Suc.prems(2) [of m] Suc.prems(3) [of m]
    by (intro loop_full) simp_all
  finally show ?case by (simp add: sent_sent ac_simps)
qed

lemma map_nth_upt_take: "i \<le> length xs \<Longrightarrow> map ((!) xs) [0..<i] = take i xs"
  by (induction i) (simp_all add: take_Suc_conv_app_nth)

lemma loop_last:
  assumes lt: "int (length repos) < K"
    and served: "repos_endpoint rem u 100 p = ok data"
    and stop: "data = [] \<or> length data < 100 \<or> K \<le> int (length (repos @ data))"
  shows "get_user_repos_loop rem u K repos p w = (Inr (repos @ data), sent [User_repos u 100 p] w)"
proof (cases "data = []")
  case True
  then show ?thesis using loop_empty [OF lt, of rem u p w] served by simp
next
  case False
  show ?thesis
  proof (cases "length data < 100")
    case True
    then show ?thesis using loop_short [OF lt served False] by simp
  next
    case full: False
    with False stop have "\<not> int (length (repos @ data)) < K" by simp
    then have "get_user_repos_loop rem u K (repos @ data) (p + 1) (sent [User_repos u 100 p] w)
        = (Inr (repos @ data), sent [User_repos u 100 p] w)"
      by (rule loop_done)
    moreover have "get_user_repos_loop rem u K repos p w =
        get_user_repos_loop rem u K (repos @ data) (p + 1) (sent [User_repos u 100 p] w)"
      using full by (intro loop_full [OF lt served]) simp
    ultimately show ?thesis by simp
  qed
qed

lemma get_user_repos_pages:
  assumes served: "\<And>i. i < length pages \<Longrightarrow> repos_endpoint rem u 100 (1 + int i) = ok (pages ! i)"
    and nonempty: "pages \<noteq> []"
    and cont: "\<And>i. Suc i < length pages \<Longrightarrow>
                 100 \<le> length (pages ! i) \<and> int (length (concat (take (Suc i) pages))) < K"
    and pos: "0 < K"
    and stop: "last pages = [] \<or> length (last pages) < 100 \<or> K \<le> int (length (concat pages))"
  shows "get_user_repos rem u K w =
           (Inr (take (nat K) (concat pages)),
            sent (map (\<lambda>i. User_repos u 100 (1 + int i)) [0..<length pages]) w)"
proof -
  define m where "m = length pages - 1"
  have len: "length pages = Suc m" using nonempty by (simp add: m_def)
  have pages_eq: "pages = take m pages @ [pages ! m]"
    using len by (metis lessI take_Suc_conv_app_nth take_all order_refl)
  have last_eq: "last pages = pages ! m"
    using nonempty len by (simp add: last_conv_nth)
  have before: "int (length (concat (take i pages))) < K" if "i \<le> m" for i
  proof (cases i)
    case 0
    then show ?thesis using pos by simp
  next
    case (Suc j)
    then show ?thesis using cont [of j] that len by simp
  qed
  have run: "get_user_repos_loop rem u K [] 1 w =
      get_user_repos_loop rem u K ([] @ concat (map ((!) pages) [0..<m])) (1 + int m)
        (sent (map (\<lambda>i. User_repos u 100 (1 + int i)) [0..<m]) w)"
  proof (rule loop_pages)
    fix i assume "i < m"
    then show "repos_endpoint rem u 100 (1 + int i) = ok (pages ! i)"
      using served [of i] len by simp
    from \<open>i < m\<close> show "100 \<le> length (pages ! i)" using cont [of i] len by simp
    from \<open>i < m\<close> show "int (length ([] @ concat (map ((!) pages) [0..<i]))) < K"
      using before [of i] len by (simp add: map_nth_upt_take)
  qed
  have acc: "concat (map ((!) pages) [0..<m]) = concat (take m pages)"
    using len by (simp add: map_nth_upt_take)
  have total: "concat (take m pages) @ pages ! m = concat pages"
    by (subst (2) pages_eq) simp
  have fin: "get_user_repos_loop rem u K (concat (take m pages)) (1 + int m)
        (sent (map (\<lambda>i. User_repos u 100 (1 + int i)) [0..<m]) w)
      = (Inr (concat (take m pages) @ pages ! m),
         sent [User_repos u 100 (1 + int m)]
           (sent (map (\<lambda>i. User_repos u 100 (1 + int i)) [0..<m]) w))"
  proof (rule loop_last)
    show "int (length (concat (take m pages))) < K" using before [of m] by simp
    show "repos_endpoint rem u 100 (1 + int m) = ok (pages ! m)"
      using served [of m] len by simp
    show "pages ! m = [] \<or> length (pages ! m) < 100
        \<or> K \<le> int (length (concat (take m pages) @ pages ! m))"
      using stop unfolding total last_eq .
  qed
  have "get_user_repos_loop rem u K [] 1 w =
      (Inr (concat pages), sent (map (\<lambda>i. User_repos u 100 (1 + int i)) [0..<length pages]) w)"
    using run fin by (simp add: acc total len sent_sent)
  then show ?thesis
    using pos by (simp add: get_user_repos_def slice_to_def)
qed

lemma loop_prefix:
  assumes served: "\<And>i. i < length pages \<Longrightarrow> repos_endpoint rem u 100 (1 + int i) = ok (pages ! i)"
    and full: "\<And>i. i < length pages \<Longrightarrow> 100 \<le> length (pages ! i)"
    and below: "\<And>i. i < length pages \<Longrightarrow> int (length (concat (take i pages))) < K"
  shows "get_user_repos_loop rem u K [] 1 w =
      get_user_repos_loop rem u K (concat pages) (1 + int (length pages))
        (sent (map (\<lambda>i. User_repos u 100 (1 + int i)) [0..<length pages]) w)"
proof -
  have "get_user_repos_loop rem u K [] 1 w =
      get_user_repos_loop rem u K ([] @ concat (map ((!) pages) [0..<length pages]))
        (1 + int (length pages))
        (sent (map (\<lambda>i. User_repos u 100 (1 + int i)) [0..<length pages]) w)"
    using served full below by (intro loop_pages) (simp_all add: map_nth_upt_take)
  then show ?thesis by (simp add: map_nth)
qed

lemma get_user_repos_status_failure:
  assumes served: "\<And>i. i < length pages \<Longrightarrow> repos_endpoint rem u 100 (1 + int i) = ok (pages ! i)"
    and full: "\<And>i. i < length pages \<Longrightarrow> 100 \<le> length (pages ! i)"
    and below: "int (length (concat pages)) < K"
    and failed: "repos_endpoint rem u 100 (1 + int (length pages)) = Inr r" "status_code r \<noteq> 200"
  shows "get_user_repos rem u K w =
           (Inr (concat pages),
            print_line (ascii ''Error fetching repos for '' @ u @ ascii '': ''
                          @ str_int (status_code r))
              (sent (map (\<lambda>i. User_repos u 100 (1 + int i)) [0..<Suc (length pages)]) w))"
proof -
  have le: "length (concat (take i pages)) \<le> length (concat pages)" for i
    by (subst (2) append_take_drop_id [of i pages, symmetric], subst concat_append) simp
  have "get_user_repos_loop rem u K [] 1 w =
      get_user_repos_loop rem u K (concat pages) (1 + int (length pages))
        (sent (map (\<lambda>i. User_repos u 100 (1 + int i)) [0..<length pages]) w)"
    using served full
  proof (rule loop_prefix)
    fix i show "int (length (concat (take i pages))) < K"
      using le [of i] below by linarith
  qed
  then show ?thesis
    using loop_status [OF below failed] below
    by (simp add: get_user_repos_def sent_sent slice_to_def)
qed

lemma get_user_repos_raise:
  assumes served: "\<And>i. i < length pages \<Longrightarrow> repos_endpoint rem u 100 (1 + int i) = ok (pages ! i)"
    and full: "\<And>i. i < length pages \<Longrightarrow> 100 \<le> length (pages ! i)"
    and below: "int (length (concat pages)) < K"
    and failed: "repos_endpoint rem u 100 (1 + int (length pages)) = Inl e"
  shows "get_user_repos rem u K w =
           (Inl e, sent (map (\<lambda>i. User_repos u 100 (1 + int i)) [0..<Suc (length pages)]) w)"
proof -
  have le: "length (concat (take i pages)) \<le> length (concat pages)" for i
    by (subst (2) append_take_drop_id [of i pages, symmetric], subst concat_append) simp
  have "get_user_repos_loop rem u K [] 1 w =
      get_user_repos_loop rem u K (concat pages) (1 + int (length pages))
        (sent (map (\<lambda>i. User_repos u 100 (1 + int i)) [0..<length pages]) w)"
    using served full
  proof (rule loop_prefix)
    fix i show "int (length (concat (take i pages))) < K"
      using le [of i] below by linarith
  qed
  then show ?thesis
    using loop_raise [OF below failed]
    by (simp add: get_user_repos_def sent_sent)
qed

lemma get_user_repos_none:
  "K \<le> 0 \<Longrightarrow> get_user_repos rem u K w = (Inr [], w)"
  by (simp add: get_user_repos_def loop_done slice_to_def)

lemma get_user_repos_at_most:
  assumes "fst (get_user_repos rem u K w) = Inr repos"
  shows "length repos \<le> nat K"
proof (cases "K \<le> 0")
  case True
  then show ?thesis using assms by (simp add: get_user_repos_none)
next
  case False
  obtain r w1 where l: "get_user_repos_loop rem u K [] 1 w = (r, w1)"
    by (cases "get_user_repos_loop rem u K [] 1 w")
  show ?thesis
    using assms False by (cases r) (auto simp: get_user_repos_def l slice_to_def)
qed

lemma response_ok: "status_code r = 200 \<Longrightarrow> Inr r = ok (json r)"
  by (simp add: ok_def)

lemma loop_fst:
  "fst (get_user_repos_loop rem u K repos p w) = fst (get_user_repos_loop rem u K repos p w')"
proof (induction rem u K repos p w arbitrary: w' rule: get_user_repos_loop.induct)
  case (1 rem u K repos p w)
  show ?case
  proof (cases "int (length repos) < K")
    case False
    then show ?thesis by (simp add: loop_done)
  next
    case lt: True
    show ?thesis
    proof (cases "repos_endpoint rem u 100 p")
      case (Inl e)
      then show ?thesis by (simp add: loop_raise [OF lt])
    next
      case (Inr r)
      show ?thesis
      proof (cases "status_code r = 200")
        case False
        then show ?thesis by (simp add: loop_status [OF lt Inr])
      next
        case True
        then have served: "repos_endpoint rem u 100 p = ok (json r)"
          using Inr response_ok by metis
        show ?thesis
        proof (cases "json r = [] \<or> length (json r) < 100")
          case True
          then have stop: "json r = [] \<or> length (json r) < 100
              \<or> K \<le> int (length (repos @ json r))" by blast
          show ?thesis by (simp add: loop_last [OF lt served stop])
        next
          case False
          then have full: "100 \<le> length (json r)" by simp
          have "fst (get_user_repos_loop rem u K (repos @ json r) (p + 1)
                       (sent [User_repos u 100 p] w))
              = fst (get_user_repos_loop rem u K (repos @ json r) (p + 1)
                       (sent [User_repos u 100 p] w'))"
            using lt Inr True False
            by (intro "1.IH" [of "Inr r" "sent [User_repos u 100 p] w" r])
              (simp_all add: api_call_def sent_def)
          then show ?thesis
            by (simp add: loop_full [OF lt served full])
        qed
      qed
    qed
  qed
qed

lemma get_user_repos_fst:
  "fst (get_user_repos rem u K w) = fst (get_user_repos rem u K w')"
proof -
  obtain r1 w1 where a: "get_user_repos_loop rem u K [] 1 w = (r1, w1)" by (cases "get_user_repos_loop rem u K [] 1 w")
  obtain r2 w2 where b: "get_user_repos_loop rem u K [] 1 w' = (r2, w2)" by (cases "get_user_repos_loop rem u K [] 1 w'")
  have eq: "r2 = r1" using loop_fst [of rem u K "[]" 1 w w'] a b by simp
  show ?thesis
    unfolding get_user_repos_def a b eq by (cases r1) simp_all
qed

lemma get_user_repos_fst0: "fst (get_user_repos rem u 500 w) = repos_fetch rem u"
  unfolding repos_fetch_def by (rule get_user_repos_fst)

section \<open>Pagination of the search\<close>

lemma search_raise:
  "search_users rem (search_query mf) p 100 = Inl e \<Longrightarrow>
   get_berlin_users_loop rem mf users p w =
     Some (Inl e, sent [Search_users (search_query mf) p 100] w)"
  by (subst get_berlin_users_loop.simps) (simp add: api_call_def sent_def)

lemma search_status:
  "search_users rem (search_query mf) p 100 = Inr r \<Longrightarrow> status_code r \<noteq> 200 \<Longrightarrow>
   get_berlin_users_loop rem mf users p w =
     Some (Inr users, print_line (ascii ''Error fetching users: '' @ str_int (status_code r))
                        (sent [Search_users (search_query mf) p 100] w))"
  by (subst get_berlin_users_loop.simps) (simp add: api_call_def sent_def)

lemma search_empty:
  "search_users rem (search_query mf) p 100 = ok \<lparr>items = []\<rparr> \<Longrightarrow>
   get_berlin_users_loop rem mf users p w =
     Some (Inr users, sent [Search_users (search_query mf) p 100] w)"
  by (subst get_berlin_users_loop.simps) (simp add: api_call_def sent_def ok_def)

lemma search_more:
  "search_users rem (search_query mf) p 100 = ok \<lparr>items = data\<rparr> \<Longrightarrow> data \<noteq> [] \<Longrightarrow>
   get_berlin_users_loop rem mf users p w =
     get_berlin_users_loop rem mf (users @ data) (p + 1)
       (sent [Search_users (search_query mf) p 100] w)"
  by (subst get_berlin_users_loop.simps) (simp add: api_call_def sent_def ok_def)

lemma search_pages:
  "(\<And>i. i < m \<Longrightarrow> search_users rem (search_query mf) (p + int i) 100 = ok \<lparr>items = pg i\<rparr>) \<Longrightarrow>
   (\<And>i. i < m \<Longrightarrow> pg i \<noteq> []) \<Longrightarrow>
   get_berlin_users_loop rem mf users p w =
     get_berlin_users_loop rem mf (users @ concat (map pg [0..<m])) (p + int m)
       (sent (map (\<lambda>i. Search_users (search_query mf) (p + int i) 100) [0..<m]) w)"
proof (induction m)
  case 0
  show ?case by (simp add: sent_Nil)
next
  case (Suc m)
  have "get_berlin_users_loop rem mf users p w =
     get_berlin_users_loop rem mf (users @ concat (map pg [0..<m])) (p + int m)
       (sent (map (\<lambda>i. Search_users (search_query mf) (p + int i) 100) [0..<m]) w)"
    using Suc.prems by (intro Suc.IH) simp_all
  also have "\<dots> = get_berlin_users_loop rem mf ((users @ concat (map pg [0..<m])) @ pg m)
       (p + int m + 1) (sent [Search_users (search_query mf) (p + int m) 100]
          (sent (map (\<lambda>i. Search_users (search_query mf) (p + int i) 100) [0..<m]) w))"
    using Suc.prems(1) [of m] Suc.prems(2) [of m]
    by (intro search_more) simp_all
  finally show ?case by (simp add: sent_sent ac_simps)
qed

lemma get_berlin_users_status_failure:
  assumes served: "\<And>i. i < length pages \<Longrightarrow>
             search_users rem (search_query mf) (1 + int i) 100 = ok \<lparr>items = pages ! i\<rparr>"
    and nonempty: "\<And>i. i < length pages \<Longrightarrow> pages ! i \<noteq> []"
    and failed: "search_users rem (search_query mf) (1 + int (length pages)) 100 = Inr r"
                "status_code r \<noteq> 200"
  shows "get_berlin_users rem mf w =
           Some (Inr (concat pages),
             print_line (ascii ''Error fetching users: '' @ str_int (status_code r))
               (sent (map (\<lambda>i. Search_users (search_query mf) (1 + int i) 100)
                        [0..<Suc (length pages)]) w))"
proof -
  have "get_berlin_users_loop rem mf [] 1 w =
      get_berlin_users_loop rem mf ([] @ concat (map ((!) pages) [0..<length pages]))
        (1 + int (length pages))
        (sent (map (\<lambda>i. Search_users (search_query mf) (1 + int i) 100) [0..<length pages]) w)"
    using served nonempty by (intro search_pages) simp_all
  then show ?thesis
    using search_status [OF failed]
    by (simp add: get_berlin_users_def map_nth sent_sent)
qed

lemma get_berlin_users_raise:
  assumes served: "\<And>i. i < length pages \<Longrightarrow>
             search_users rem (search_query mf) (1 + int i) 100 = ok \<lparr>items = pages ! i\<rparr>"
    and nonempty: "\<And>i. i < length pages \<Longrightarrow> pages ! i \<noteq> []"
    and failed: "search_users rem (search_query mf) (1 + int (length pages)) 100 = Inl e"
  shows "get_berlin_users rem mf w =
           Some (Inl e,
               sent (map (\<lambda>i. Search_users (search_query mf) (1 + int i) 100)
                        [0..<Suc (length pages)]) w)"
proof -
  have "get_berlin_users_loop rem mf [] 1 w =
      get_berlin_users_loop rem mf ([] @ concat (map ((!) pages) [0..<length pages]))
        (1 + int (length pages))
        (sent (map (\<lambda>i. Search_users (search_query mf) (1 + int i) 100) [0..<length pages]) w)"
    using served nonempty by (intro search_pages) simp_all
  then show ?thesis
    using search_raise [OF failed]
    by (simp add: get_berlin_users_def map_nth sent_sent)
qed

lemma get_berlin_users_end:
  assumes served: "\<And>i. i < length pages \<Longrightarrow>
             search_users rem (search_query mf) (1 + int i) 100 = ok \<lparr>items = pages ! i\<rparr>"
    and nonempty: "\<And>i. i < length pages \<Longrightarrow> pages ! i \<noteq> []"
    and final: "search_users rem (search_query mf) (1 + int (length pages)) 100 = ok \<lparr>items = []\<rparr>"
  shows "get_berlin_users rem mf w =
           Some (Inr (concat pages),
               sent (map (\<lambda>i. Search_users (search_query mf) (1 + int i) 100)
                        [0..<Suc (length pages)]) w)"
proof -
  have "get_berlin_users_loop rem mf [] 1 w =
      get_berlin_users_loop rem mf ([] @ concat (map ((!) pages) [0..<length pages]))
        (1 + int (length pages))
        (sent (map (\<lambda>i. Search_users (search_query mf) (1 + int i) 100) [0..<length pages]) w)"
    using served nonempty by (intro search_pages) simp_all
  then show ?thesis
    using search_empty [OF final]
    by (simp add: get_berlin_users_def map_nth sent_sent)
qed







section \<open>Processing one user\<close>

lemma get_user_details_fst:
  "fst (get_user_details rem u w) = detail_fetch rem u"
  by (cases "users_endpoint rem u")
    (simp_all add: detail_fetch_def get_user_details_def api_call_def)

lemma detail_get:
  "get_user_details rem u w =
     (case users_endpoint rem u of
        Inl e \<Rightarrow> (Inl e, sent [User_details u] w)
      | Inr r \<Rightarrow>
          if status_code r \<noteq> 200
          then (Inr None, print_line (ascii ''Error fetching user details for '' @ u @ ascii '': ''
                             @ str_int (status_code r)) (sent [User_details u] w))
          else (Inr (json r), sent [User_details u] w))"
  by (simp add: get_user_details_def api_call_def sent_def split: sum.splits)

lemma process_user_result:
  "fst (process_user rem user w) =
     (case detail_fetch rem (stub_login user) of
        Inl e \<Rightarrow> Inl e
      | Inr None \<Rightarrow> Inr (None, None)
      | Inr (Some d) \<Rightarrow>
          (case repos_fetch rem (stub_login user) of
             Inl e \<Rightarrow> Inl e
           | Inr repos \<Rightarrow> Inr (Some d, Some (create_repos_dataframe repos (stub_login user)))))"
proof -
  obtain r1 w1 where a: "get_user_details rem (stub_login user) w = (r1, w1)"
    by (cases "get_user_details rem (stub_login user) w")
  have r1: "r1 = detail_fetch rem (stub_login user)"
    using get_user_details_fst [of rem "stub_login user" w] a by simp
  obtain r2 w2 where b: "get_user_repos rem (stub_login user) 500 w1 = (r2, w2)"
    by (cases "get_user_repos rem (stub_login user) 500 w1")
  have r2: "r2 = repos_fetch rem (stub_login user)"
    using get_user_repos_fst0 [of rem "stub_login user" w1] b by simp
  show ?thesis
    unfolding process_user_def Let_def a r1 [symmetric]
    by (cases r1; cases r2) (auto simp: b r2 [symmetric] create_repos_dataframe_def split: option.splits)
qed

lemma process_user_fst: "fst (process_user rem user w) = processed rem user"
  unfolding processed_def by (simp add: process_user_result)

lemma processed_eq:
  "processed rem user =
     (case detail_fetch rem (stub_login user) of
        Inl e \<Rightarrow> Inl e
      | Inr None \<Rightarrow> Inr (None, None)
      | Inr (Some d) \<Rightarrow>
          (case repos_fetch rem (stub_login user) of
             Inl e \<Rightarrow> Inl e
           | Inr repos \<Rightarrow> Inr (Some d, Some (create_repos_dataframe repos (stub_login user)))))"
  unfolding processed_def by (rule process_user_result)

lemma processed_Some:
  "processed rem user = Inr (Some d, x) \<Longrightarrow>
     detail_fetch rem (stub_login user) = Inr (Some d)
     \<and> (\<exists>repos. repos_fetch rem (stub_login user) = Inr repos
          \<and> x = Some (create_repos_dataframe repos (stub_login user)))"
  by (auto simp: processed_eq split: sum.splits option.splits)

lemma processed_None:
  "processed rem user = Inr (None, x) \<Longrightarrow> x = None"
  by (auto simp: processed_eq split: sum.splits option.splits)

lemma process_user_detail_status:
  assumes "users_endpoint rem (stub_login user) = Inr r" "status_code r \<noteq> 200"
  shows "process_user rem user w =
     (Inr (None, None),
      print_line (ascii ''Error fetching user details for '' @ stub_login user @ ascii '': ''
                    @ str_int (status_code r)) (sent [User_details (stub_login user)] w))"
  using assms by (simp add: process_user_def detail_get Let_def)

lemma process_user_repos_status:
  assumes "users_endpoint rem (stub_login user) = ok (Some d)"
    and "repos_endpoint rem (stub_login user) 100 1 = Inr r" "status_code r \<noteq> 200"
  shows "process_user rem user w =
     (Inr (Some d, Some []),
      print_line (ascii ''Error fetching repos for '' @ stub_login user @ ascii '': ''
                    @ str_int (status_code r))
        (sent [User_details (stub_login user), User_repos (stub_login user) 100 1] w))"
proof -
  have "get_user_repos rem (stub_login user) 500 (sent [User_details (stub_login user)] w) =
      (Inr (concat []),
       print_line (ascii ''Error fetching repos for '' @ stub_login user @ ascii '': ''
                    @ str_int (status_code r))
         (sent (map (\<lambda>i. User_repos (stub_login user) 100 (1 + int i)) [0..<Suc (length ([]::raw_repo list list))])
            (sent [User_details (stub_login user)] w)))"
    using assms(2,3) by (intro get_user_repos_status_failure) simp_all
  then show ?thesis
    using assms(1) by (simp add: process_user_def detail_get ok_def sent_sent Let_def)
qed

lemma process_user_no_repos:
  assumes "detail_fetch rem (stub_login user) = Inr (Some d)"
    and "repos_fetch rem (stub_login user) = Inr []"
  shows "fst (process_user rem user w) = Inr (Some d, Some [])"
  using assms by (simp add: process_user_result create_repos_dataframe_def)

lemma profiles_eq:
  "profiles rem user =
     (if succeeded rem user then [the (fst (projr (processed rem user)))] else [])"
proof (cases "processed rem user")
  case (Inl e)
  then show ?thesis by (simp add: profiles_def succeeded_def)
next
  case (Inr pr)
  obtain ud x where pr: "pr = (ud, x)" by (cases pr)
  show ?thesis
  proof (cases ud)
    case None
    then show ?thesis by (simp add: profiles_def succeeded_def Inr pr)
  next
    case (Some d)
    then obtain df where "x = Some df"
      using processed_Some [of rem user d x] Inr pr by auto
    then show ?thesis by (simp add: profiles_def succeeded_def Inr pr Some)
  qed
qed

lemma length_profiles: "length (profiles rem user) = (if succeeded rem user then 1 else 0)"
  by (simp add: profiles_eq)

lemma profiles_detail:
  "d \<in> set (profiles rem user) \<Longrightarrow> detail_fetch rem (stub_login user) = Inr (Some d)"
  by (auto simp: profiles_def processed_eq split: sum.splits option.splits)

lemma frames_rows:
  assumes "df \<in> set (frames rem user)" "row \<in> set df"
  shows "owner_login row = stub_login user \<and> (\<exists>d. profiles rem user = [d])"
proof -
  from assms obtain ud where p: "processed rem user = Inr (ud, Some df)"
    by (cases "processed rem user") (auto simp: frames_def split: option.splits if_splits)
  then obtain d where ud: "ud = Some d"
    using processed_None [of rem user "Some df"] by (cases ud) auto
  then obtain repos where "df = create_repos_dataframe repos (stub_login user)"
    using processed_Some [of rem user d "Some df"] p by auto
  then have "owner_login row = stub_login user"
    using assms(2) by (auto simp: create_repos_dataframe_def repo_to_row_def split: if_splits)
  moreover have "profiles rem user = [d]" by (simp add: profiles_def p ud)
  ultimately show ?thesis by blast
qed

section \<open>The loop over the completed futures and the final tables\<close>

lemma collect_fst:
  "fst (collect rem n order us fs c w) =
     (us @ concat (map (profiles rem) order), fs @ concat (map (frames rem) order))"
proof (induction order arbitrary: us fs c w)
  case Nil
  show ?case by simp
next
  case (Cons user rest)
  obtain w1 where pu: "process_user rem user w = (processed rem user, w1)"
    using process_user_fst [of rem user w] by (cases "process_user rem user w") simp
  show ?case
  proof (cases "processed rem user")
    case (Inl e)
    then show ?thesis
      by (simp add: pu Cons.IH profiles_def frames_def Let_def)
  next
    case (Inr pr)
    obtain ud df where pr: "pr = (ud, df)" by (cases pr)
    show ?thesis
      by (cases ud; cases df)
        (simp_all add: pu Inr pr Cons.IH profiles_def frames_def Let_def)
  qed
qed

lemma length_concat_profiles:
  "length (concat (map (profiles rem) order)) = length (filter (succeeded rem) order)"
  by (induction order) (simp_all add: length_profiles)


lemma apply_clean_ok:
  "NaN \<notin> set cs \<Longrightarrow>
   apply_clean_company_name uc cs =
     Inr (map (\<lambda>c. case c of Text s \<Rightarrow> clean_company_name uc (Some s)
                      | _ \<Rightarrow> clean_company_name uc None) cs)"
proof (induction cs)
  case Nil
  show ?case by simp
next
  case (Cons c cs)
  then show ?case by (cases c) (simp_all add: clean_company_cell_def)
qed

lemma apply_clean_nan:
  "NaN \<in> set cs \<Longrightarrow> apply_clean_company_name uc cs = Inl float_has_no_strip"
proof (induction cs)
  case Nil
  then show ?case by simp
next
  case (Cons c cs)
  show ?case
  proof (cases c)
    case NaN
    then show ?thesis by (simp add: clean_company_cell_def float_has_no_strip_def)
  next
    case (Text s)
    with Cons show ?thesis by (simp add: clean_company_cell_def)
  next
    case Null
    with Cons show ?thesis by (simp add: clean_company_cell_def)
  qed
qed

lemma company_column_nan:
  "NaN \<in> set (company_column as_nan vs) \<longleftrightarrow> as_nan vs \<and> None \<in> set vs"
  by (auto simp: company_column_def split: option.splits if_splits)

lemma company_column_rows:
  "\<not> (as_nan (map company us) \<and> None \<in> set (map company us)) \<Longrightarrow>
   map (\<lambda>(d, c). select_columns d c)
     (zip us (map (\<lambda>c. case c of Text s \<Rightarrow> clean_company_name uc (Some s)
                           | _ \<Rightarrow> clean_company_name uc None)
                (company_column as_nan (map company us))))
   = map (user_to_row uc) us"
  by (rule nth_equalityI)
    (auto simp: company_column_def user_to_row_def split: option.splits)

lemma col_login_user_to_row: "col_login (user_to_row uc d) = login d"
  by (simp add: user_to_row_def select_columns_def)

lemma create_users_dataframe_eq:
  "create_users_dataframe as_nan uc us =
     (if us = [] then Inl (KeyError (ascii ''company''))
      else if reads_nan as_nan us then Inl float_has_no_strip
      else Inr (map (user_to_row uc) us))"
proof (cases "us = []")
  case True
  then show ?thesis by (simp add: create_users_dataframe_def frame_columns_def)
next
  case False
  then have col: "ascii ''company'' \<in> set (frame_columns us)"
    by (simp add: frame_columns_def ascii_def)
  show ?thesis
  proof (cases "reads_nan as_nan us")
    case True
    then have "NaN \<in> set (company_column as_nan (map company us))"
      by (simp add: company_column_nan reads_nan_def)
    then show ?thesis
      using False True col by (simp add: create_users_dataframe_def apply_clean_nan)
  next
    case no: False
    then have "NaN \<notin> set (company_column as_nan (map company us))"
      by (simp add: company_column_nan reads_nan_def)
    then show ?thesis
      using False no col company_column_rows [of as_nan us uc]
      by (simp add: create_users_dataframe_def apply_clean_ok reads_nan_def)
  qed
qed

lemma main_fst:
  "map_option fst (main as_nan rem uc completion w) =
     (case get_berlin_users rem 200 (print_line (ascii ''Fetching Berlin users...'') w) of
        None \<Rightarrow> None
      | Some (Inl e, w1) \<Rightarrow> Some (Inl e)
      | Some (Inr stubs, w1) \<Rightarrow>
          Some (case create_users_dataframe as_nan uc (concat (map (profiles rem) (completion stubs))) of
                  Inl e \<Rightarrow> Inl e
                | Inr users_df \<Rightarrow>
                    Inr \<lparr>users_csv = users_df,
                         repositories_csv = concat (concat (map (frames rem) (completion stubs)))\<rparr>))"
proof (cases "get_berlin_users rem 200 (print_line (ascii ''Fetching Berlin users...'') w)")
  case None
  then show ?thesis by (simp add: main_def)
next
  case (Some a)
  obtain r w1 where a: "a = (r, w1)" by (cases a)
  show ?thesis
  proof (cases r)
    case (Inl e)
    then show ?thesis by (simp add: main_def Some a)
  next
    case (Inr stubs)
    define w2 where "w2 = print_line (ascii ''Found '' @ str_nat (length stubs)
                     @ ascii '' users in Berlin with >200 followers'') w1"
    obtain w3 where c: "collect rem (length stubs) (completion stubs) [] [] 0 w2 =
        ((concat (map (profiles rem) (completion stubs)),
          concat (map (frames rem) (completion stubs))), w3)"
      using collect_fst [of rem "length stubs" "completion stubs" "[]" "[]" 0 w2]
      by (cases "collect rem (length stubs) (completion stubs) [] [] 0 w2") simp
    show ?thesis
      unfolding main_def Some a Inr
      by (cases "create_users_dataframe as_nan uc (concat (map (profiles rem) (completion stubs)))")
        (simp_all add: c [unfolded w2_def])
  qed
qed

lemma main_saved:
  assumes "map_option fst (get_berlin_users rem 200
             (print_line (ascii ''Fetching Berlin users...'') w)) = Some (Inr stubs)"
    and "concat (map (profiles rem) (completion stubs)) \<noteq> []"
    and "\<not> reads_nan as_nan (concat (map (profiles rem) (completion stubs)))"
  shows "map_option fst (main as_nan rem uc completion w) =
     Some (Inr \<lparr>users_csv = map (user_to_row uc) (concat (map (profiles rem) (completion stubs))),
                repositories_csv = concat (concat (map (frames rem) (completion stubs)))\<rparr>)"
  using assms
  by (auto simp: main_fst create_users_dataframe_eq split: option.splits sum.splits prod.splits)

lemma main_key_error:
  assumes "map_option fst (get_berlin_users rem 200
             (print_line (ascii ''Fetching Berlin users...'') w)) = Some (Inr stubs)"
    and "concat (map (profiles rem) (completion stubs)) = []"
  shows "map_option fst (main as_nan rem uc completion w) = Some (Inl (KeyError (ascii ''company'')))"
  using assms
  by (auto simp: main_fst create_users_dataframe_eq split: option.splits sum.splits prod.splits)



lemma no_success_no_profiles:
  "filter (succeeded rem) order = [] \<Longrightarrow> concat (map (profiles rem) order) = []"
  using length_concat_profiles [of rem order] by simp


lemma dataset_rows_owned:
  assumes run: "map_option fst (main as_nan rem uc completion w) = Some (Inr ds)"
    and echo: "\<And>u d. detail_fetch rem u = Inr (Some d) \<Longrightarrow> login d = u"
  shows "\<forall>row \<in> set (repositories_csv ds). \<exists>p \<in> set (users_csv ds). col_login p = owner_login row"
    and "\<forall>u. detail_failed rem u \<longrightarrow>
           (\<forall>row \<in> set (repositories_csv ds). owner_login row \<noteq> u)
           \<and> (\<forall>p \<in> set (users_csv ds). col_login p \<noteq> u)"
proof -
  from run obtain stubs w1 where
    g: "get_berlin_users rem 200 (print_line (ascii ''Fetching Berlin users...'') w) = Some (Inr stubs, w1)"
    by (auto simp: main_fst split: option.splits sum.splits prod.splits)
  define order where "order = completion stubs"
  have ds: "users_csv ds = map (user_to_row uc) (concat (map (profiles rem) order))"
           "repositories_csv ds = concat (concat (map (frames rem) order))"
    using run unfolding main_fst g order_def
    by (auto simp: create_users_dataframe_eq split: if_splits)
  have user: "\<exists>s \<in> set order. detail_fetch rem (stub_login s) = Inr (Some d)"
    if "d \<in> set (concat (map (profiles rem) order))" for d
    using that profiles_detail by fastforce
  have repo: "\<exists>s \<in> set order. \<exists>d. owner_login row = stub_login s \<and> profiles rem s = [d]"
    if "row \<in> set (concat (concat (map (frames rem) order)))" for row
    using that frames_rows by fastforce
  show "\<forall>row \<in> set (repositories_csv ds). \<exists>p \<in> set (users_csv ds). col_login p = owner_login row"
  proof
    fix row assume "row \<in> set (repositories_csv ds)"
    then have "row \<in> set (concat (concat (map (frames rem) order)))" by (simp add: ds(2))
    from repo [OF this]
    obtain s d where s: "s \<in> set order" "owner_login row = stub_login s" "profiles rem s = [d]"
      by blast
    then have "detail_fetch rem (stub_login s) = Inr (Some d)"
      using profiles_detail [of d rem s] by simp
    then have "login d = stub_login s" by (rule echo)
    moreover have "user_to_row uc d \<in> set (users_csv ds)"
      using s(1,3) unfolding ds(1) by force
    ultimately show "\<exists>p \<in> set (users_csv ds). col_login p = owner_login row"
      using s(2) by (intro bexI [of _ "user_to_row uc d"]) (simp_all add: col_login_user_to_row)
  qed
  show "\<forall>u. detail_failed rem u \<longrightarrow>
           (\<forall>row \<in> set (repositories_csv ds). owner_login row \<noteq> u)
           \<and> (\<forall>p \<in> set (users_csv ds). col_login p \<noteq> u)"
  proof (intro allI impI conjI ballI)
    fix u row assume f: "detail_failed rem u" and "row \<in> set (repositories_csv ds)"
    then have "row \<in> set (concat (concat (map (frames rem) order)))" by (simp add: ds(2))
    from repo [OF this]
    obtain s d where s: "s \<in> set order" "owner_login row = stub_login s" "profiles rem s = [d]"
      by blast
    then have "detail_fetch rem (stub_login s) = Inr (Some d)"
      using profiles_detail [of d rem s] by simp
    then show "owner_login row \<noteq> u" using f s(2) by (auto simp: detail_failed_def)
  next
    fix u p assume f: "detail_failed rem u" and "p \<in> set (users_csv ds)"
    then obtain d where d: "d \<in> set (concat (map (profiles rem) order))" "p = user_to_row uc d"
      unfolding ds(1) by auto
    from user [OF d(1)] obtain s :: stub where "detail_fetch rem (stub_login s) = Inr (Some d)"
      by blast
    moreover from this have "login d = stub_login s" by (rule echo)
    ultimately show "col_login p \<noteq> u"
      using f d(2) by (auto simp: detail_failed_def col_login_user_to_row)
  qed
qed

section \<open>Evaluation of the sample services\<close>

lemma scripted_nth: "i < length script \<Longrightarrow> scripted final script (1 + int i) = script ! i"
  by (simp add: scripted_def)

lemma fixture_repos:
  "i < length listings \<Longrightarrow> repos_endpoint (fixture s m listings) u 100 (1 + int i) = listings ! i"
  by (simp add: fixture_def scripted_nth)

lemma fixture_repos_ok:
  "i < length pages \<Longrightarrow>
   repos_endpoint (fixture s m (map ok pages)) u 100 (1 + int i) = ok (pages ! i)"
  by (simp add: fixture_repos)

lemma fixture_search_ok:
  "i < length pages \<Longrightarrow>
   search_users (fixture (map (\<lambda>p. ok \<lparr>items = p\<rparr>) pages @ rest) m l) q (1 + int i) 100
     = ok \<lparr>items = pages ! i\<rparr>"
  by (simp add: fixture_def scripted_nth nth_append)

lemma fixture_repos_ok2:
  "i < length pages \<Longrightarrow>
   repos_endpoint (fixture s m (map ok pages @ rest)) u 100 (1 + int i) = ok (pages ! i)"
  by (simp add: fixture_def scripted_nth nth_append)

lemma fixture_detail:
  "detail_fetch (fixture s m l) u = (if u \<in> set m then Inr None else Inr (Some (sample_user u)))"
  by (simp add: detail_fetch_def detail_get fixture_def status_def ok_def)

lemma fixture_no_repos: "repos_fetch (fixture s m []) u = Inr []"
proof -
  have "get_user_repos_loop (fixture s m []) u 500 [] 1 world0
      = (Inr [], sent [User_repos u 100 1] world0)"
    by (rule loop_empty) (simp_all add: fixture_def scripted_def)
  then show ?thesis by (simp add: repos_fetch_def get_user_repos_def slice_to_def)
qed

lemma fixture_search_run:
  assumes "stubs \<noteq> []"
  shows "map_option fst (get_berlin_users (fixture [ok \<lparr>items = stubs\<rparr>] m l) mf w)
           = Some (Inr stubs)"
proof -
  have "get_berlin_users (fixture [ok \<lparr>items = stubs\<rparr>] m l) mf w =
      Some (Inr (concat [stubs]),
        sent (map (\<lambda>i. Search_users (search_query mf) (1 + int i) 100) [0..<Suc (length [stubs])]) w)"
    using assms by (intro get_berlin_users_end) (simp_all add: fixture_def scripted_def)
  then show ?thesis by simp
qed

lemma fixture_succeeded:
  "succeeded (fixture s m []) user = (stub_login user \<notin> set m)"
  by (simp add: succeeded_def processed_eq fixture_detail fixture_no_repos)

lemma fixture_one_repo: "repos_fetch (fixture s m [ok [sample_repo]]) u = Inr [sample_repo]"
proof -
  have "get_user_repos (fixture s m [ok [sample_repo]]) u 500 world0 =
      (Inr (take (nat 500) (concat [[sample_repo]])),
       sent (map (\<lambda>i. User_repos u 100 (1 + int i)) [0..<length [[sample_repo]]]) world0)"
    by (rule get_user_repos_pages) (simp_all add: fixture_def scripted_def)
  then show ?thesis by (simp add: repos_fetch_def)
qed

lemma alice_not_bob: "ascii ''alice'' \<noteq> ascii ''bob''"
  by (simp add: ascii_def)

lemma fixture_echo: "detail_fetch (fixture s m l) u = Inr (Some d) \<Longrightarrow> login d = u"
  by (auto simp: fixture_detail sample_user_def split: if_splits)

lemma fixture_companies:
  "d \<in> set (concat (map (profiles (fixture s m l)) order)) \<Longrightarrow> company d \<noteq> None"
proof -
  assume "d \<in> set (concat (map (profiles (fixture s m l)) order))"
  then obtain u where "d \<in> set (profiles (fixture s m l) u)" by auto
  then have "detail_fetch (fixture s m l) (stub_login u) = Inr (Some d)"
    by (rule profiles_detail)
  then show ?thesis by (auto simp: fixture_detail sample_user_def split: if_splits)
qed

lemma fixture_reads_no_nan:
  "\<not> reads_nan as_nan (concat (map (profiles (fixture s m l)) order))"
proof
  assume "reads_nan as_nan (concat (map (profiles (fixture s m l)) order))"
  then have "None \<in> set (map company (concat (map (profiles (fixture s m l)) order)))"
    by (simp add: reads_nan_def)
  then obtain d where "d \<in> set (concat (map (profiles (fixture s m l)) order))"
    and "company d = None"
    by (metis (no_types, lifting) imageE list.set_map)
  then show False using fixture_companies [of d s m l order] by simp
qed





lemma str_int_200: "str_int 200 = ascii ''200''"
  by (simp add: str_int_def str_nat.simps ascii_def)

lemma str_int_404: "str_int 404 = ascii ''404''"
  by (simp add: str_int_def str_nat.simps ascii_def)

lemma str_int_500: "str_int 500 = ascii ''500''"
  by (simp add: str_int_def str_nat.simps ascii_def)

lemma ascii_append: "ascii (xs @ ys) = ascii xs @ ascii ys"
  by (simp add: ascii_def)

lemma search_query_200: "search_query 200 = ascii ''location:Berlin followers:>=200''"
  by (simp add: search_query_def str_int_200 ascii_append [symmetric])



lemma dataset_fixture_run:
  "map_option fst (main infers_strings dataset_fixture uc0 id world0) = Some (Inr dataset_saved)"
proof -
  have a: "map_option fst (get_berlin_users dataset_fixture 200
          (print_line (ascii ''Fetching Berlin users...'') world0)) = Some (Inr [alice, bob])"
    unfolding dataset_fixture_def by (rule fixture_search_run) simp
  have pa: "profiles dataset_fixture alice = [sample_user (ascii ''alice'')]"
    by (simp add: profiles_def processed_eq dataset_fixture_def fixture_detail fixture_one_repo
        alice_def alice_not_bob)
  have pb: "profiles dataset_fixture bob = []"
    by (simp add: profiles_def processed_eq dataset_fixture_def fixture_detail bob_def)
  have fa: "frames dataset_fixture alice = [[repo_to_row (ascii ''alice'') sample_repo]]"
    by (simp add: frames_def processed_eq dataset_fixture_def fixture_detail fixture_one_repo
        alice_def alice_not_bob create_repos_dataframe_def)
  have fb: "frames dataset_fixture bob = []"
    by (simp add: frames_def processed_eq dataset_fixture_def fixture_detail bob_def)
  have "concat (map (profiles dataset_fixture) (id [alice, bob])) \<noteq> []"
    by (simp add: pa pb)
  moreover have "\<not> reads_nan infers_strings
      (concat (map (profiles dataset_fixture) (id [alice, bob])))"
    unfolding dataset_fixture_def by (rule fixture_reads_no_nan)
  ultimately have "map_option fst (main infers_strings dataset_fixture uc0 id world0) =
     Some (Inr \<lparr>users_csv =
                  map (user_to_row uc0) (concat (map (profiles dataset_fixture) (id [alice, bob]))),
                repositories_csv =
                  concat (concat (map (frames dataset_fixture) (id [alice, bob])))\<rparr>)"
    by (rule main_saved [of dataset_fixture world0 "[alice, bob]" id infers_strings uc0, OF a])
  then
  show ?thesis by (simp add: pa pb fa fb dataset_saved_def)
qed

section \<open>The claims\<close>

text \<open>
  C2. Listing mode. Let \<open>pages\<close> be the pages the remote service serves for a user,
  \<open>pages ! i\<close> being page number \<open>i + 1\<close>, where every page before the last is full
  (at least 100 items) and leaves the accumulated count below the cap \<open>K\<close>, and the
  last page is the first one that is empty, or shorter than 100, or brings the count
  to \<open>K\<close> or more. Then \<open>get_user_repos\<close> requests exactly these pages, in order,
  and none after the last, and returns their items truncated to the first \<open>K\<close>.
  Whatever the remote service answers, a list that \<open>get_user_repos\<close> returns has at
  most as many items as the cap, and under a cap of zero or less no request is sent.
\<close>

theorem get_user_repos_listing_mode:
  assumes "\<And>i. i < length pages \<Longrightarrow> repos_endpoint rem u 100 (1 + int i) = ok (pages ! i)"
    and "pages \<noteq> []"
    and "\<And>i. Suc i < length pages \<Longrightarrow>
            100 \<le> length (pages ! i) \<and> int (length (concat (take (Suc i) pages))) < K"
    and "0 < K"
    and "last pages = [] \<or> length (last pages) < 100 \<or> K \<le> int (length (concat pages))"
  shows "get_user_repos rem u K w =
           (Inr (take (nat K) (concat pages)),
            sent (map (\<lambda>i. User_repos u 100 (1 + int i)) [0..<length pages]) w)
         \<and> (fst (get_user_repos rem1 u1 K1 w1) = Inr repos \<longrightarrow> length repos \<le> nat K1)
         \<and> (K1 \<le> 0 \<longrightarrow> get_user_repos rem1 u1 K1 w1 = (Inr [], w1))"
  using get_user_repos_pages [OF assms, of w] get_user_repos_at_most [of rem1 u1 K1 w1 repos]
    get_user_repos_none [of K1 rem1 u1 w1]
  by blast

text \<open>
  The two examples of C2: pages of 100, 100 and 37 items under the cap 500 give 237
  items after three requests, and pages of 100, 100 and 100 items under the cap 150
  give 150 items after two requests.
\<close>

theorem get_user_repos_listing_mode_witness:
  "get_user_repos
     (fixture [] [] (map ok [replicate 100 sample_repo, replicate 100 sample_repo,
                             replicate 37 sample_repo]))
     (ascii ''alice'') 500 world0
   = (Inr (replicate 237 sample_repo),
      \<lparr>calls = [User_repos (ascii ''alice'') 100 1, User_repos (ascii ''alice'') 100 2,
                User_repos (ascii ''alice'') 100 3],
       stdout = []\<rparr>)
   \<and> get_user_repos
     (fixture [] [] (map ok [replicate 100 sample_repo, replicate 100 sample_repo] @
                     [ok (replicate 100 sample_repo)]))
     (ascii ''alice'') 150 world0
   = (Inr (replicate 150 sample_repo),
      \<lparr>calls = [User_repos (ascii ''alice'') 100 1, User_repos (ascii ''alice'') 100 2],
       stdout = []\<rparr>)"
proof -
  let ?p3 = "[replicate 100 sample_repo, replicate 100 sample_repo, replicate 37 sample_repo]"
  let ?p2 = "[replicate 100 sample_repo, replicate 100 sample_repo]"
  have a1: "\<And>i. i < length ?p3 \<Longrightarrow>
      repos_endpoint (fixture [] [] (map ok ?p3)) (ascii ''alice'') 100 (1 + int i) = ok (?p3 ! i)"
    by (rule fixture_repos_ok)
  have a2: "\<And>i. Suc i < length ?p3 \<Longrightarrow>
      100 \<le> length (?p3 ! i) \<and> int (length (concat (take (Suc i) ?p3))) < 500"
    by (auto simp: less_Suc_eq nth_Cons')
  have b1: "\<And>i. i < length ?p2 \<Longrightarrow>
      repos_endpoint (fixture [] [] (map ok ?p2 @ [ok (replicate 100 sample_repo)]))
        (ascii ''alice'') 100 (1 + int i) = ok (?p2 ! i)"
    by (rule fixture_repos_ok2)
  have b2: "\<And>i. Suc i < length ?p2 \<Longrightarrow>
      100 \<le> length (?p2 ! i) \<and> int (length (concat (take (Suc i) ?p2))) < 150"
    by (auto simp: less_Suc_eq nth_Cons')
  have r237: "replicate 100 sample_repo @ replicate 100 sample_repo @ replicate 37 sample_repo
      = replicate 237 sample_repo"
    by (simp add: replicate_add [symmetric])
  have r150: "replicate 100 sample_repo @ replicate 50 sample_repo
      = replicate 150 sample_repo"
    by (simp add: replicate_add [symmetric])
  show ?thesis
    using get_user_repos_listing_mode [of ?p3 _ "ascii ''alice''" 500 world0, OF a1 _ a2]
      get_user_repos_listing_mode [of ?p2 _ "ascii ''alice''" 150 world0, OF b1 _ b2]
    by (simp add: r237 r150 sent_def world0_def)
qed

text \<open>
  C3. Whenever \<open>main\<close> writes the two tables, and the detail endpoint answers the
  request for a login with the profile of that login, every row of the repository
  table carries the login of some row of the user table; and a login whose detail
  fetch failed occurs in neither table.
\<close>

theorem dataset_rows_have_profiles:
  assumes "map_option fst (main as_nan rem uc completion w) = Some (Inr ds)"
    and "\<And>u d. detail_fetch rem u = Inr (Some d) \<Longrightarrow> login d = u"
  shows "(\<forall>row \<in> set (repositories_csv ds). \<exists>p \<in> set (users_csv ds). col_login p = owner_login row)
       \<and> (\<forall>u. detail_failed rem u \<longrightarrow>
             (\<forall>row \<in> set (repositories_csv ds). owner_login row \<noteq> u)
             \<and> (\<forall>p \<in> set (users_csv ds). col_login p \<noteq> u))"
  using dataset_rows_owned [OF assms] by (intro conjI)

text \<open>
  A run on two stubs, the second of which fails its detail fetch: the tables hold the
  profile and the repository of the first only.
\<close>

theorem dataset_rows_have_profiles_witness:
  "map_option fst (main infers_strings dataset_fixture uc0 id world0) = Some (Inr dataset_saved)
   \<and> detail_failed dataset_fixture (ascii ''bob'')
   \<and> repositories_csv dataset_saved \<noteq> []
   \<and> set (map owner_login (repositories_csv dataset_saved))
         \<subseteq> set (map col_login (users_csv dataset_saved))
   \<and> ascii ''bob'' \<notin> set (map owner_login (repositories_csv dataset_saved))
   \<and> ascii ''bob'' \<notin> set (map col_login (users_csv dataset_saved))"
proof -
  have echo: "\<And>u d. detail_fetch dataset_fixture u = Inr (Some d) \<Longrightarrow> login d = u"
    unfolding dataset_fixture_def by (rule fixture_echo)
  have failed: "detail_failed dataset_fixture (ascii ''bob'')"
    by (simp add: detail_failed_def dataset_fixture_def fixture_detail)
  have nonempty: "repositories_csv dataset_saved \<noteq> []"
    by (simp add: dataset_saved_def)
  note owned = dataset_rows_have_profiles [OF dataset_fixture_run echo]
  have sub: "set (map owner_login (repositories_csv dataset_saved))
         \<subseteq> set (map col_login (users_csv dataset_saved))"
  proof
    fix x assume "x \<in> set (map owner_login (repositories_csv dataset_saved))"
    then obtain row where "row \<in> set (repositories_csv dataset_saved)" "x = owner_login row"
      by auto
    with owned obtain p where "p \<in> set (users_csv dataset_saved)" "col_login p = x"
      by blast
    then show "x \<in> set (map col_login (users_csv dataset_saved))" by force
  qed
  have "ascii ''bob'' \<notin> set (map owner_login (repositories_csv dataset_saved))"
    and "ascii ''bob'' \<notin> set (map col_login (users_csv dataset_saved))"
    using owned failed by auto
  with nonempty sub dataset_fixture_run failed show ?thesis by blast
qed




text \<open>
  C5. When the detail fetch of a user answers with a status other than 200,
  \<open>process_user\<close> returns the pair \<open>(None, None)\<close>, no profile and no repositories;
  it has printed the error and sent the detail request only, so no repository fetch
  was attempted.
\<close>

theorem process_user_detail_failure:
  assumes "users_endpoint rem (stub_login user) = Inr r" and "status_code r \<noteq> 200"
  shows "process_user rem user w =
     (Inr (None, None),
      print_line (ascii ''Error fetching user details for '' @ stub_login user @ ascii '': ''
                    @ str_int (status_code r)) (sent [User_details (stub_login user)] w))"
  using assms by (rule process_user_detail_status)

text \<open>
  A user whose detail request answers 404.
\<close>

theorem process_user_detail_failure_witness:
  "process_user (fixture [] [ascii ''bob''] []) bob world0 =
     (Inr (None, None),
      \<lparr>calls = [User_details (ascii ''bob'')],
       stdout = [ascii ''Error fetching user details for bob: 404'']\<rparr>)"
proof -
  have a: "users_endpoint (fixture [] [ascii ''bob''] []) (stub_login bob)
      = Inr \<lparr>status_code = 404, json = None\<rparr>"
    by (simp add: fixture_def bob_def status_def)
  show ?thesis
    using process_user_detail_failure [OF a, of world0]
    by (simp add: bob_def str_int_404 ascii_append [symmetric] sent_def world0_def print_line_def)
qed

text \<open>
  C6 does not hold as stated. The detail fetch of a user succeeds and the request for
  the first repository page raises: the repository fetch fails and yields no item,
  but \<open>process_user\<close> does not return the profile, it raises, and the loop of \<open>main\<close>
  gathers no profile for this user.
\<close>

theorem process_user_repos_failure_counterexample:
  "users_endpoint (fixture [] [] [Inl (RequestException (ascii ''timed out''))]) (ascii ''alice'')
     = ok (Some (sample_user (ascii ''alice'')))
   \<and> process_user (fixture [] [] [Inl (RequestException (ascii ''timed out''))]) alice world0 =
     (Inl (RequestException (ascii ''timed out'')),
      \<lparr>calls = [User_details (ascii ''alice''), User_repos (ascii ''alice'') 100 1],
       stdout = []\<rparr>)
   \<and> fst (fst (collect (fixture [] [] [Inl (RequestException (ascii ''timed out''))]) 1 [alice]
                  [] [] 0 world0)) = []"
proof -
  let ?R = "fixture [] [] [Inl (RequestException (ascii ''timed out''))]"
  have a: "users_endpoint ?R (ascii ''alice'') = ok (Some (sample_user (ascii ''alice'')))"
    by (simp add: fixture_def)
  have "get_user_repos ?R (ascii ''alice'') 500 (sent [User_details (ascii ''alice'')] world0) =
      (Inl (RequestException (ascii ''timed out'')),
       sent (map (\<lambda>i. User_repos (ascii ''alice'') 100 (1 + int i))
               [0..<Suc (length ([] :: raw_repo list list))])
         (sent [User_details (ascii ''alice'')] world0))"
    by (rule get_user_repos_raise) (simp_all add: fixture_def scripted_def)
  then have b: "process_user ?R alice world0 =
     (Inl (RequestException (ascii ''timed out'')),
      \<lparr>calls = [User_details (ascii ''alice''), User_repos (ascii ''alice'') 100 1],
       stdout = []\<rparr>)"
    using a by (simp add: process_user_def detail_get ok_def Let_def alice_def sent_def world0_def)
  then have "processed ?R alice = Inl (RequestException (ascii ''timed out''))"
    by (simp add: processed_def)
  then have "fst (fst (collect ?R 1 [alice] [] [] 0 world0)) = []"
    by (simp add: collect_fst profiles_def del: collect.simps)
  with a b show ?thesis by simp
qed

text \<open>
  C6, amended. When the detail fetch of a user succeeds with the profile \<open>d\<close> and the
  fetch of the first repository page answers with a status other than 200,
  \<open>process_user\<close> returns the profile together with an empty data frame: the failure
  is printed and does not propagate. More generally it returns the profile with an
  empty data frame whenever \<open>get_user_repos\<close> returns the empty list.
\<close>

theorem process_user_repos_failure:
  assumes "users_endpoint rem (stub_login user) = ok (Some d)"
  shows "(repos_endpoint rem (stub_login user) 100 1 = Inr r \<and> status_code r \<noteq> 200 \<longrightarrow>
          process_user rem user w =
            (Inr (Some d, Some []),
             print_line (ascii ''Error fetching repos for '' @ stub_login user @ ascii '': ''
                           @ str_int (status_code r))
               (sent [User_details (stub_login user), User_repos (stub_login user) 100 1] w)))
       \<and> (repos_fetch rem (stub_login user) = Inr [] \<longrightarrow>
          fst (process_user rem user w) = Inr (Some d, Some []))"
proof -
  have "detail_fetch rem (stub_login user) = Inr (Some d)"
    using assms by (simp add: detail_fetch_def detail_get ok_def)
  then show ?thesis
    using process_user_repos_status [OF assms, of r w] process_user_no_repos [of rem user d w]
    by blast
qed

text \<open>
  A user whose profile is served and whose repository listing answers 500, and one
  whose listing is empty.
\<close>

theorem process_user_repos_failure_witness:
  "process_user (fixture [] [] [status 500 []]) alice world0 =
     (Inr (Some (sample_user (ascii ''alice'')), Some []),
      \<lparr>calls = [User_details (ascii ''alice''), User_repos (ascii ''alice'') 100 1],
       stdout = [ascii ''Error fetching repos for alice: 500'']\<rparr>)
   \<and> fst (process_user (fixture [] [] []) alice world0) =
       Inr (Some (sample_user (ascii ''alice'')), Some [])"
proof -
  have a: "users_endpoint (fixture [] [] l) (stub_login alice)
      = ok (Some (sample_user (ascii ''alice'')))" for l
    by (simp add: fixture_def alice_def)
  have b: "repos_endpoint (fixture [] [] [status 500 []]) (stub_login alice) 100 1
      = Inr \<lparr>status_code = 500, json = []\<rparr>"
    by (simp add: fixture_def scripted_def status_def)
  show ?thesis
    using process_user_repos_failure [OF a, of "[status 500 []]" "\<lparr>status_code = 500, json = []\<rparr>" world0]
      process_user_repos_failure [OF a, of "[]" _ world0] b
      fixture_no_repos [of "[]" "[]" "stub_login alice"]
    by (simp add: alice_def str_int_500 ascii_append [symmetric] sent_def world0_def print_line_def)
qed

text \<open>
  C7 does not hold as stated. When the request for page 2 raises, after a first page
  of 100 repositories (of one user for the search), both paginators return the
  exception and none of the items of page 1. When page 2 answers with status 500, the
  value returned to the caller is the list of page 1, the very value returned when
  page 2 is the empty page that ends the listing: the failure is only printed.
\<close>

theorem pagination_failure_counterexample:
  "get_user_repos raising_fixture (ascii ''alice'') 500 world0 =
     (Inl (RequestException (ascii ''timed out'')),
      \<lparr>calls = [User_repos (ascii ''alice'') 100 1, User_repos (ascii ''alice'') 100 2],
       stdout = []\<rparr>)
   \<and> get_berlin_users raising_fixture 200 world0 =
     Some (Inl (RequestException (ascii ''timed out'')),
      \<lparr>calls = [Search_users (ascii ''location:Berlin followers:>=200'') 1 100,
                Search_users (ascii ''location:Berlin followers:>=200'') 2 100],
       stdout = []\<rparr>)
   \<and> fst (get_user_repos failing_fixture (ascii ''alice'') 500 world0)
       = Inr (replicate 100 sample_repo)
   \<and> fst (get_user_repos ending_fixture (ascii ''alice'') 500 world0)
       = Inr (replicate 100 sample_repo)"
proof -
  let ?pages = "[replicate 100 sample_repo]"
  let ?u = "ascii ''alice''"
  have full: "\<And>i. i < length ?pages \<Longrightarrow> 100 \<le> length (?pages ! i)" by simp
  have below: "int (length (concat ?pages)) < 500" by simp
  have "get_user_repos raising_fixture ?u 500 world0 =
      (Inl (RequestException (ascii ''timed out'')),
       sent (map (\<lambda>i. User_repos ?u 100 (1 + int i)) [0..<Suc (length ?pages)]) world0)"
    unfolding raising_fixture_def
    by (rule get_user_repos_raise [OF fixture_repos_ok2 full below])
      (simp_all add: fixture_def scripted_def)
  moreover have "get_berlin_users raising_fixture 200 world0 =
      Some (Inl (RequestException (ascii ''timed out'')),
       sent (map (\<lambda>i. Search_users (search_query 200) (1 + int i) 100) [0..<Suc (length [[alice]])])
         world0)"
    unfolding raising_fixture_def
    by (rule get_berlin_users_raise [OF fixture_search_ok])
      (simp_all add: fixture_def scripted_def)
  moreover have "get_user_repos failing_fixture ?u 500 world0 =
      (Inr (concat ?pages),
       print_line (ascii ''Error fetching repos for '' @ ?u @ ascii '': ''
                          @ str_int (status_code \<lparr>status_code = 500, json = [] :: raw_repo list\<rparr>))
         (sent (map (\<lambda>i. User_repos ?u 100 (1 + int i)) [0..<Suc (length ?pages)]) world0))"
    unfolding failing_fixture_def
    by (rule get_user_repos_status_failure [OF fixture_repos_ok2 full below])
      (simp_all add: fixture_def scripted_def status_def)
  moreover have "get_user_repos ending_fixture ?u 500 world0 =
      (Inr (take (nat 500) (concat ?pages)),
       sent (map (\<lambda>i. User_repos ?u 100 (1 + int i)) [0..<length (?pages @ [[]])]) world0)"
  proof -
    have "get_user_repos ending_fixture ?u 500 world0 =
      (Inr (take (nat 500) (concat (?pages @ [[]]))),
       sent (map (\<lambda>i. User_repos ?u 100 (1 + int i)) [0..<length (?pages @ [[]])]) world0)"
      by (rule get_user_repos_pages)
        (auto simp: ending_fixture_def fixture_def scripted_def less_Suc_eq nth_Cons')
    then show ?thesis by simp
  qed
  ultimately show ?thesis
    by (simp add: search_query_200 sent_def world0_def)
qed

text \<open>
  C7, amended. When pages 1 to \<open>k - 1\<close> of a paginated query are served (non-empty for
  the search; full and below the cap for the listing) and the response for page \<open>k\<close>
  has a status other than 200, the paginator stops at once: page \<open>k\<close> is the last
  request sent, the failure is printed with its status code, and the value returned
  is exactly the items of pages 1 to \<open>k - 1\<close>, in order.
\<close>

theorem pagination_stops_on_failure_status:
  "((\<forall>i<length spages. search_users rem (search_query mf) (1 + int i) 100
                          = ok \<lparr>items = spages ! i\<rparr> \<and> spages ! i \<noteq> [])
     \<and> search_users rem (search_query mf) (1 + int (length spages)) 100 = Inr rs
     \<and> status_code rs \<noteq> 200
    \<longrightarrow> get_berlin_users rem mf w =
          Some (Inr (concat spages),
            print_line (ascii ''Error fetching users: '' @ str_int (status_code rs))
              (sent (map (\<lambda>i. Search_users (search_query mf) (1 + int i) 100)
                       [0..<Suc (length spages)]) w)))
   \<and> ((\<forall>i<length pages. repos_endpoint rem u 100 (1 + int i) = ok (pages ! i)
                          \<and> 100 \<le> length (pages ! i))
     \<and> int (length (concat pages)) < K
     \<and> repos_endpoint rem u 100 (1 + int (length pages)) = Inr r
     \<and> status_code r \<noteq> 200
    \<longrightarrow> get_user_repos rem u K w =
          (Inr (concat pages),
            print_line (ascii ''Error fetching repos for '' @ u @ ascii '': ''
                          @ str_int (status_code r))
              (sent (map (\<lambda>i. User_repos u 100 (1 + int i)) [0..<Suc (length pages)]) w)))"
  using get_berlin_users_status_failure [of spages rem mf rs w]
    get_user_repos_status_failure [of pages rem u K r w]
  by blast

text \<open>
  A search and a listing whose second page answers 500.
\<close>

theorem pagination_stops_on_failure_status_witness:
  "get_berlin_users failing_fixture 200 world0 =
     Some (Inr [alice],
       \<lparr>calls = [Search_users (ascii ''location:Berlin followers:>=200'') 1 100,
                 Search_users (ascii ''location:Berlin followers:>=200'') 2 100],
        stdout = [ascii ''Error fetching users: 500'']\<rparr>)
   \<and> get_user_repos failing_fixture (ascii ''alice'') 500 world0 =
     (Inr (replicate 100 sample_repo),
       \<lparr>calls = [User_repos (ascii ''alice'') 100 1, User_repos (ascii ''alice'') 100 2],
        stdout = [ascii ''Error fetching repos for alice: 500'']\<rparr>)"
proof -
  have a: "\<forall>i<length [[alice]]. search_users failing_fixture (search_query 200) (1 + int i) 100
                          = ok \<lparr>items = [[alice]] ! i\<rparr> \<and> [[alice]] ! i \<noteq> []"
    unfolding failing_fixture_def by (simp add: fixture_def scripted_def)
  have b: "search_users failing_fixture (search_query 200) (1 + int (length [[alice]])) 100
      = Inr \<lparr>status_code = 500, json = \<lparr>items = []\<rparr>\<rparr>"
    unfolding failing_fixture_def by (simp add: fixture_def scripted_def status_def)
  have c: "\<forall>i<length [replicate 100 sample_repo].
      repos_endpoint failing_fixture (ascii ''alice'') 100 (1 + int i)
        = ok ([replicate 100 sample_repo] ! i) \<and> 100 \<le> length ([replicate 100 sample_repo] ! i)"
    unfolding failing_fixture_def by (simp add: fixture_def scripted_def)
  have d: "repos_endpoint failing_fixture (ascii ''alice'') 100
        (1 + int (length [replicate 100 sample_repo])) = Inr \<lparr>status_code = 500, json = []\<rparr>"
    unfolding failing_fixture_def by (simp add: fixture_def scripted_def status_def)
  have e: "int (length (concat [replicate 100 sample_repo])) < 500" by simp
  show ?thesis
    using pagination_stops_on_failure_status
      [of "[[alice]]" failing_fixture 200 "\<lparr>status_code = 500, json = \<lparr>items = []\<rparr>\<rparr>" world0
          "[replicate 100 sample_repo]" "ascii ''alice''" 500 "\<lparr>status_code = 500, json = []\<rparr>"]
      a b c d e
    by (simp add: search_query_200 str_int_500 ascii_append [symmetric] sent_def world0_def
        print_line_def)
qed




text \<open>
  C9. For every input, \<open>clean_company_name\<close> trims surrounding white space, drops one
  leading \<open>@\<close> and upper-cases the remainder, and absent or empty input gives the empty
  string: it computes exactly what the specification's wording does. In particular
  \<open>"@OpenAI "\<close> gives \<open>"OPENAI"\<close>, \<open>None\<close> gives \<open>""\<close> and \<open>"Acme Corp"\<close> gives
  \<open>"ACME CORP"\<close>.
\<close>

theorem clean_company_name_spec:
  "clean_company_name uc raw = cleanCompany_spec uc raw
   \<and> clean_company_name uc None = []
   \<and> clean_company_name uc (Some []) = []
   \<and> clean_company_name uc (Some (ascii ''@OpenAI '')) = ascii ''OPENAI''
   \<and> clean_company_name uc (Some (ascii ''Acme Corp'')) = ascii ''ACME CORP''"
proof -
  have "clean_company_name uc None = []"
    by (simp add: clean_company_name_def)
  moreover have "clean_company_name uc (Some []) = []"
    by (simp add: clean_company_name_def)
  ultimately show ?thesis
    using clean_company_name_refines [of uc raw]
      clean_company_name_OpenAI [of uc] clean_company_name_Acme [of uc]
    by simp
qed

text \<open>
  C10. On the empty list of users \<open>create_users_dataframe\<close> raises \<open>KeyError\<close> for
  the column \<open>company\<close> instead of returning an empty table; so when the search
  returns stubs none of which succeeds, \<open>main\<close> ends in its outer handler with this
  exception and writes no file.
\<close>

theorem create_users_dataframe_empty_raises:
  "create_users_dataframe as_nan uc [] = Inl (KeyError (ascii ''company''))
   \<and> (map_option fst (get_berlin_users rem 200
          (print_line (ascii ''Fetching Berlin users...'') w)) = Some (Inr stubs)
        \<and> filter (succeeded rem) (completion stubs) = []
      \<longrightarrow> map_option fst (main as_nan rem uc completion w)
            = Some (Inl (KeyError (ascii ''company''))))"
  using main_key_error [of rem w stubs completion as_nan uc]
    no_success_no_profiles [of rem "completion stubs"]
  by (simp add: create_users_dataframe_eq)

text \<open>
  A run on two stubs that both fail their detail fetch.
\<close>

theorem create_users_dataframe_empty_raises_witness:
  "create_users_dataframe infers_strings uc0 [] = Inl (KeyError (ascii ''company''))
   \<and> map_option fst (main infers_strings
        (fixture [ok \<lparr>items = [alice, bob]\<rparr>] [ascii ''alice'', ascii ''bob''] [])
        uc0 id world0) = Some (Inl (KeyError (ascii ''company'')))"
proof -
  let ?R = "fixture [ok \<lparr>items = [alice, bob]\<rparr>] [ascii ''alice'', ascii ''bob''] []"
  have a: "map_option fst (get_berlin_users ?R 200
          (print_line (ascii ''Fetching Berlin users...'') world0)) = Some (Inr [alice, bob])"
    by (rule fixture_search_run) simp
  have b: "filter (succeeded ?R) (id [alice, bob]) = []"
    by (simp add: fixture_succeeded alice_def bob_def)
  show ?thesis
    using create_users_dataframe_empty_raises [of infers_strings uc0 ?R world0 "[alice, bob]" id] a b
    by simp
qed

end
